theory Spec2Isabelle
  imports Main "HOL-Library.Word"
begin

section \<open>The agent communication layer of ModsBeforeFriday (src/mbf-site/src/Agent.ts)\<close>

text \<open>
  The embedding follows \<^verbatim>\<open>Agent.ts\<close> function by function. Every function of the
  source that has an effect takes the world before the call and returns the world after
  it, paired with its result: \<open>Inr\<close> the value an \<^verbatim>\<open>async\<close> function resolves with,
  \<open>Inl\<close> the exception it rejects with. The world is kept in both cases, since what was
  printed or sent before a \<^verbatim>\<open>throw\<close> stays printed and sent.

  What the collaborators do (the agent process, the device, the HTTP transfer) is an input
  of the model: the chunks the reader delivers, the exit code, the output of a remote
  command, the outcome of each transfer. The model covers the runs in which the awaited
  promises of the collaborators settle (but for the write of the upload, which is raced
  against a timer) and in which the callback of the event sink returns. JavaScript strings
  are modelled as \<^typ>\<open>string\<close>.
\<close>

subsection \<open>Data model\<close>

text \<open>A thrown value: \<^verbatim>\<open>new Error(message)\<close>, or the \<^verbatim>\<open>TypeError\<close> of reading a
  property of \<^verbatim>\<open>null\<close>.\<close>

datatype error = JsError string | TypeError

text \<open>
  \<^verbatim>\<open>Messages.ts\<close> declares \<^verbatim>\<open>LogMsg\<close> and \<^verbatim>\<open>Response\<close>; the records below list the
  fields \<^verbatim>\<open>Agent.ts\<close> reads and writes. A response is told apart by its \<^verbatim>\<open>type\<close> tag:
  \<^verbatim>\<open>"LogMsg"\<close>, or anything else, which carries the payload \<open>'p\<close> of the operation (the
  type the callers of \<^verbatim>\<open>sendRequest\<close> cast the result to).
\<close>

datatype level = Error | Warn | Debug | Info | Trace

record LogMsg =
  level :: level
  message :: string

datatype 'p Response = Log LogMsg | Result 'p

text \<open>\<^verbatim>\<open>LogEventSink = ((event: LogMsg) => void) | null\<close>: the callback, when there is
  one, changes the state \<open>'o\<close> of whoever observes the events.\<close>

type_synonym 'o LogEventSink = "(LogMsg \<Rightarrow> 'o \<Rightarrow> 'o) option"

datatype console_call =
    console_log string
  | console_error string
  | console_warn string
  | console_debug string
  | console_info string
  | console_trace string
  | console_group string
  | console_groupEnd

text \<open>The calls made on the device connection \<^verbatim>\<open>adb\<close>, in the order they are issued.\<close>

datatype adb_call =
    spawn string
  | stdin_write string
  | spawnAndWait string
  | sync
  | sync_write string "8 word list"
  | sync_dispose

record 'o world =
  console :: "console_call list"
  observer :: 'o
  adb_calls :: "adb_call list"
  xhr_sent :: nat
  toasts :: "string list"

text \<open>
  One run of the agent process as \<^verbatim>\<open>sendRequest\<close> sees it: the values of
  \<^verbatim>\<open>result.value\<close> of the reads made while \<^verbatim>\<open>exited\<close> was still false (\<open>None\<close>
  is \<^verbatim>\<open>undefined\<close>), the exit code, and the decoded chunks of standard error.
\<close>

record agent_run =
  reads :: "string option list"
  exit_code :: int
  stderr :: "string list"

abbreviation newline :: char where
  "newline \<equiv> CHR 0x0A"

definition AgentPath :: string where
  "AgentPath = ''/data/local/tmp/mbf-agent''"

subsection \<open>Logging\<close>

definition logInfo :: "'o LogEventSink \<Rightarrow> string \<Rightarrow> 'o world \<Rightarrow> 'o world" where
  "logInfo sink msg w =
     (let w1 = w\<lparr>console := console w @ [console_log msg]\<rparr>
      in case sink of
           None \<Rightarrow> w1
         | Some f \<Rightarrow> w1\<lparr>observer := f \<lparr>level = Info, message = msg\<rparr> (observer w1)\<rparr>)"

definition logFromAgent :: "LogMsg \<Rightarrow> 'o world \<Rightarrow> 'o world" where
  "logFromAgent log w =
     (case level log of
        Error \<Rightarrow> w\<lparr>console := console w @ [console_error (message log)]\<rparr>
      | Warn \<Rightarrow> w\<lparr>console := console w @ [console_warn (message log)]\<rparr>
      | Debug \<Rightarrow> w\<lparr>console := console w @ [console_debug (message log)]\<rparr>
      | Info \<Rightarrow> w\<lparr>console := console w @ [console_info (message log)]\<rparr>
      | Trace \<Rightarrow> w\<lparr>console := console w @ [console_trace (message log)]\<rparr>)"

subsection \<open>sendRequest: framing, demultiplexing, resolution\<close>

text \<open>\<^verbatim>\<open>String.prototype.split\<close> with a separator of one character: the segments between
  the occurrences of the separator, never an empty array.\<close>

fun split_from :: "char \<Rightarrow> string \<Rightarrow> string \<Rightarrow> string list" where
  "split_from sep cur [] = [cur]"
| "split_from sep cur (c # cs) =
     (if c = sep then cur # split_from sep [] cs else split_from sep (cur @ [c]) cs)"

definition js_split :: "string \<Rightarrow> char \<Rightarrow> string list" where
  "js_split s sep = split_from sep [] s"

text \<open>Lines 210 to 212: the chunk is appended to the buffer, the buffer is split, and the
  last segment is the new buffer. The result is the array \<^verbatim>\<open>messages\<close> and the buffer.\<close>

definition frame_chunk :: "string \<Rightarrow> string \<Rightarrow> string list \<times> string" where
  "frame_chunk buffer receivedStr =
     (let buffer1 = buffer @ receivedStr;
          messages = js_split buffer1 newline
      in (messages, last messages))"

text \<open>Lines 222 to 237: one parsed message against the latched \<^verbatim>\<open>response\<close>.\<close>

definition handle_message ::
  "'o LogEventSink \<Rightarrow> 'p Response \<Rightarrow> 'p Response option \<Rightarrow> 'o world
     \<Rightarrow> 'o world \<times> 'p Response option" where
  "handle_message eventSink msg_obj response w =
     (case msg_obj of
        Log log_obj \<Rightarrow>
          (let w1 = logFromAgent log_obj w;
               w2 = (case eventSink of
                       None \<Rightarrow> w1
                     | Some f \<Rightarrow> w1\<lparr>observer := f log_obj (observer w1)\<rparr>)
           in (w2, if level log_obj = Error then Some msg_obj else response))
      | Result p \<Rightarrow> (w, Some msg_obj))"

text \<open>
  The \<^verbatim>\<open>for\<close> loop of lines 214 to 238 over the complete frames of one chunk.
  \<open>parse\<close> is \<^verbatim>\<open>JSON.parse(...) as Response\<close>: \<open>None\<close> when \<^verbatim>\<open>JSON.parse\<close> throws.
  As the cast says, a frame that parses is taken to be a \<^verbatim>\<open>Response\<close>: an object with
  a \<^verbatim>\<open>type\<close>, and with a \<^verbatim>\<open>level\<close> and a \<^verbatim>\<open>message\<close> when the type is
  \<^verbatim>\<open>LogMsg\<close>.
\<close>

fun frames_loop ::
  "(string \<Rightarrow> 'p Response option) \<Rightarrow> 'o LogEventSink \<Rightarrow> string list
     \<Rightarrow> 'p Response option \<Rightarrow> 'o world \<Rightarrow> 'o world \<times> (error + 'p Response option)" where
  "frames_loop parse eventSink [] response w = (w, Inr response)"
| "frames_loop parse eventSink (m # ms) response w =
     (case parse m of
        None \<Rightarrow> (w, Inl (JsError (''Agent message '' @ m @ '' was not valid JSON'')))
      | Some msg_obj \<Rightarrow>
          (case handle_message eventSink msg_obj response w of
             (w1, response1) \<Rightarrow> frames_loop parse eventSink ms response1 w1))"

text \<open>The body of the \<^verbatim>\<open>while\<close> loop for one read.\<close>

definition on_read ::
  "(string \<Rightarrow> 'p Response option) \<Rightarrow> 'o LogEventSink \<Rightarrow> string option
     \<Rightarrow> string \<times> 'p Response option \<Rightarrow> 'o world
     \<Rightarrow> 'o world \<times> (error + string \<times> 'p Response option)" where
  "on_read parse eventSink receivedStr st w =
     (case receivedStr of
        None \<Rightarrow> (w, Inr st)
      | Some s \<Rightarrow>
          (case frame_chunk (fst st) s of
             (messages, buffer1) \<Rightarrow>
               (case frames_loop parse eventSink (butlast messages) (snd st) w of
                  (w1, Inl e) \<Rightarrow> (w1, Inl e)
                | (w1, Inr response1) \<Rightarrow> (w1, Inr (buffer1, response1)))))"

text \<open>The \<^verbatim>\<open>while(!exited)\<close> loop over the reads of the run; a throw ends it.\<close>

fun stream_loop ::
  "(string \<Rightarrow> 'p Response option) \<Rightarrow> 'o LogEventSink \<Rightarrow> string option list
     \<Rightarrow> string \<times> 'p Response option \<Rightarrow> 'o world
     \<Rightarrow> 'o world \<times> (error + string \<times> 'p Response option)" where
  "stream_loop parse eventSink [] st w = (w, Inr st)"
| "stream_loop parse eventSink (r # rs) st w =
     (case on_read parse eventSink r st w of
        (w1, Inl e) \<Rightarrow> (w1, Inl e)
      | (w1, Inr st1) \<Rightarrow> stream_loop parse eventSink rs st1 w1)"

text \<open>Lines 242 to 258: the outcome, from the exit code and the latched response.\<close>

definition resolve :: "int \<Rightarrow> 'p Response option \<Rightarrow> string list \<Rightarrow> error + 'p" where
  "resolve code response err_chunks =
     (if code = 0 then
        (case response of
           None \<Rightarrow> Inl (JsError ''Received error response from agent'')
         | Some (Log log) \<Rightarrow> Inl (JsError (''`'' @ message log @ ''`''))
         | Some (Result p) \<Rightarrow> Inr p)
      else Inl (JsError (''Failed to invoke agent: is the executable corrupt?''
                           @ concat err_chunks)))"

text \<open>Lines 177 to 198, up to \<^verbatim>\<open>console.group\<close>: the process is spawned and the request
  written to its standard input. \<open>stringify\<close> is \<^verbatim>\<open>JSON.stringify\<close> on requests.\<close>

definition open_session :: "('r \<Rightarrow> string) \<Rightarrow> 'r \<Rightarrow> 'o world \<Rightarrow> 'o world" where
  "open_session stringify request w =
     (let command_buffer = stringify request @ [newline];
          w1 = w\<lparr>adb_calls := adb_calls w @ [spawn AgentPath, stdin_write command_buffer]\<rparr>
      in w1\<lparr>console := console w1 @ [console_group ''Agent Request'']\<rparr>)"

definition sendRequest ::
  "('r \<Rightarrow> string) \<Rightarrow> (string \<Rightarrow> 'p Response option) \<Rightarrow> agent_run
     \<Rightarrow> 'r \<Rightarrow> 'o LogEventSink \<Rightarrow> 'o world \<Rightarrow> 'o world \<times> (error + 'p)" where
  "sendRequest stringify parse run request eventSink w =
     (case stream_loop parse eventSink (reads run) ([], None) (open_session stringify request w) of
        (w3, Inl e) \<Rightarrow> (w3, Inl e)
      | (w3, Inr (buffer, response)) \<Rightarrow>
          (w3\<lparr>console := console w3 @ [console_groupEnd]\<rparr>,
           resolve (exit_code run) response (stderr run)))"

text \<open>The text received over the reads of a run, and the complete frames the \<^verbatim>\<open>for\<close>
  loops of a run iterate over, in order, from a starting buffer.\<close>

fun received_text :: "string option list \<Rightarrow> string" where
  "received_text [] = []"
| "received_text (None # rs) = received_text rs"
| "received_text (Some s # rs) = s @ received_text rs"

fun frames_read :: "string option list \<Rightarrow> string \<Rightarrow> string list" where
  "frames_read [] buffer = []"
| "frames_read (None # rs) buffer = frames_read rs buffer"
| "frames_read (Some s # rs) buffer =
     (case frame_chunk buffer s of
        (messages, buffer1) \<Rightarrow> butlast messages @ frames_read rs buffer1)"

text \<open>What lines 230 to 236 can latch: nothing yet, a message that is not a log, or a log
  of level \<^verbatim>\<open>Error\<close>.\<close>

fun latch_ok :: "'p Response option \<Rightarrow> bool" where
  "latch_ok (Some (Log l)) = (level l = Error)"
| "latch_ok r = True"

subsection \<open>downloadAgent: the fetch with retries\<close>

text \<open>
  One \<^verbatim>\<open>XMLHttpRequest\<close> as the page sees it: the clock when the handlers are installed
  (line 123), the \<^verbatim>\<open>onprogress\<close> calls with the clock at each, and the event that ends
  the transfer, \<^verbatim>\<open>onload\<close> with the status and the response or \<^verbatim>\<open>onerror\<close> with the
  status. Times are in milliseconds.
\<close>

record progress_event =
  lengthComputable :: bool
  loaded :: nat
  total :: nat

datatype xhr_end = onload nat "8 word list" | onerror nat

record xhr_run =
  opened_at :: int
  progress :: "(int \<times> progress_event) list"
  ended :: xhr_end

definition MAX_ATTEMPTS :: nat where
  "MAX_ATTEMPTS = 3"

definition PROGRESS_UPDATE_INTERVAL :: int where
  "PROGRESS_UPDATE_INTERVAL = 1000"

text \<open>A natural number in a template string or appended to a string: decimal digits.\<close>

fun show_nat :: "nat \<Rightarrow> string" where
  "show_nat n =
     (if n < 10 then [''0123456789'' ! n]
      else show_nat (n div 10) @ [''0123456789'' ! (n mod 10)])"

declare show_nat.simps [simp del]

text \<open>
  The \<^verbatim>\<open>onprogress\<close> handler over the progress calls of one transfer, with
  \<^verbatim>\<open>lastReadTime\<close>. \<open>percent\<close> gives the text of
  \<^verbatim>\<open>Math.round(percentComplete * 10) / 10\<close> from \<^verbatim>\<open>event.loaded\<close> and
  \<^verbatim>\<open>event.total\<close> (floating point, not modelled here).
\<close>

fun onprogress ::
  "(nat \<Rightarrow> nat \<Rightarrow> string) \<Rightarrow> 'o LogEventSink \<Rightarrow> int \<Rightarrow> (int \<times> progress_event) list
     \<Rightarrow> 'o world \<Rightarrow> 'o world" where
  "onprogress percent eventSink lastReadTime [] w = w"
| "onprogress percent eventSink lastReadTime ((timeNow, event) # rest) w =
     (if \<not> lengthComputable event then onprogress percent eventSink lastReadTime rest w
      else if timeNow - lastReadTime > PROGRESS_UPDATE_INTERVAL then
        onprogress percent eventSink timeNow rest
          (logInfo eventSink
             (''Download '' @ percent (loaded event) (total event) @ ''% complete'') w)
      else onprogress percent eventSink lastReadTime rest w)"

text \<open>How the promise of lines 108 to 140 settles: \<open>Inr\<close> the response it resolves with,
  \<open>Inl\<close> the status it rejects with.\<close>

definition xhr_result :: "xhr_run \<Rightarrow> nat + 8 word list" where
  "xhr_result xhr =
     (case ended xhr of
        onload status response \<Rightarrow>
          (if status \<ge> 200 \<and> status < 300 then Inr response else Inl status)
      | onerror status \<Rightarrow> Inl status)"

text \<open>Lines 107 to 140: one transfer, with its progress reports.\<close>

definition xhr_attempt ::
  "(nat \<Rightarrow> nat \<Rightarrow> string) \<Rightarrow> 'o LogEventSink \<Rightarrow> xhr_run \<Rightarrow> 'o world
     \<Rightarrow> 'o world \<times> (nat + 8 word list)" where
  "xhr_attempt percent eventSink xhr w =
     (let w1 = w\<lparr>xhr_sent := xhr_sent w + 1\<rparr>
      in (onprogress percent eventSink (opened_at xhr) (progress xhr) w1, xhr_result xhr))"

text \<open>The message of the error thrown at line 154.\<close>

definition fetch_failed_message :: string where
  "fetch_failed_message =
     ''Failed to fetch agent after multiple attempts.'' @ [newline]
       @ ''Did you lose internet connection just after you loaded the site?''
       @ [newline, newline]
       @ ''If not, then please report this issue, including a screenshot of the browser console window!''"

text \<open>
  The \<^verbatim>\<open>do ... while\<close> loop of lines 101 to 152, from the value of \<^verbatim>\<open>attempt\<close>, and
  the \<^verbatim>\<open>throw\<close> after it. \<open>transport k\<close> is the transfer started when \<open>k\<close> transfers
  have been sent before it. \<^verbatim>\<open>ok\<close> is never assigned after its initialisation.
\<close>

function download_loop ::
  "(nat \<Rightarrow> nat \<Rightarrow> string) \<Rightarrow> (nat \<Rightarrow> xhr_run) \<Rightarrow> 'o LogEventSink \<Rightarrow> nat \<Rightarrow> 'o world
     \<Rightarrow> 'o world \<times> (error + 8 word list)" where
  "download_loop percent transport eventSink attempt w =
     (let ok = False in
      case xhr_attempt percent eventSink (transport (xhr_sent w)) w of
        (w1, Inr response) \<Rightarrow>
          (logInfo eventSink ''Download complete, getting byte array from response'' w1,
           Inr response)
      | (w1, Inl e) \<Rightarrow>
          (let w2 = logInfo eventSink (''Failed to fetch agent, status '' @ show_nat e) w1;
               attempt1 = attempt + 1;
               w3 = (if attempt1 \<le> MAX_ATTEMPTS then
                       logInfo eventSink
                         (''Failed to download agent, trying again... (attempt ''
                            @ show_nat attempt1 @ ''/'' @ show_nat MAX_ATTEMPTS @ '')'') w2
                     else w2)
           in if \<not> ok \<and> attempt1 \<le> MAX_ATTEMPTS then
                download_loop percent transport eventSink attempt1 w3
              else
                (w3, Inl (JsError fetch_failed_message))))"
  by pat_completeness auto
termination
  by (relation "measure (\<lambda>(percent, transport, eventSink, attempt, w). MAX_ATTEMPTS + 1 - attempt)")
     auto

declare download_loop.simps [simp del]

definition downloadAgent ::
  "(nat \<Rightarrow> nat \<Rightarrow> string) \<Rightarrow> (nat \<Rightarrow> xhr_run) \<Rightarrow> 'o LogEventSink \<Rightarrow> 'o world
     \<Rightarrow> 'o world \<times> (error + 8 word list)" where
  "downloadAgent percent transport eventSink w =
     download_loop percent transport eventSink 1 w"

subsection \<open>saveAgent: the upload raced against a timer\<close>

text \<open>
  When the promise of \<^verbatim>\<open>sync.write\<close> settles, in milliseconds after the race starts, and
  how. The timer of \<^verbatim>\<open>timeoutPromise\<close> rejects at \<^verbatim>\<open>AGENT_UPLOAD_TIMEOUT * 1000\<close>;
  \<open>timer_first_on_tie\<close> says which of the two \<^verbatim>\<open>Promise.race\<close> sees first when both
  settle in the same millisecond.
\<close>

datatype write_outcome = resolves_at nat | rejects_at nat error | never_settles

record upload_run =
  write_settles :: write_outcome
  timer_first_on_tie :: bool

definition AGENT_UPLOAD_TIMEOUT :: nat where
  "AGENT_UPLOAD_TIMEOUT = 30"

definition upload_timeout_error :: error where
  "upload_timeout_error =
     JsError (''Did not finish pushing agent after '' @ show_nat AGENT_UPLOAD_TIMEOUT
        @ '' seconds.'' @ [newline]
        @ ''In practice, pushing the agent takes less than a second, so this is a bug. Please report this issue including information about ''
        @ ''which web browser you are using.'')"

definition timer_first :: "upload_run \<Rightarrow> nat \<Rightarrow> bool" where
  "timer_first up t =
     (AGENT_UPLOAD_TIMEOUT * 1000 < t \<or> (t = AGENT_UPLOAD_TIMEOUT * 1000 \<and> timer_first_on_tie up))"

text \<open>\<^verbatim>\<open>await Promise.race([timeoutPromise, sync.write(options)])\<close>.\<close>

definition race_upload :: "upload_run \<Rightarrow> error + unit" where
  "race_upload up =
     (case write_settles up of
        resolves_at t \<Rightarrow> (if timer_first up t then Inl upload_timeout_error else Inr ())
      | rejects_at t e \<Rightarrow> (if timer_first up t then Inl upload_timeout_error else Inl e)
      | never_settles \<Rightarrow> Inl upload_timeout_error)"

definition saveAgent ::
  "(nat \<Rightarrow> nat \<Rightarrow> string) \<Rightarrow> (nat \<Rightarrow> xhr_run) \<Rightarrow> upload_run \<Rightarrow> 'o LogEventSink \<Rightarrow> 'o world
     \<Rightarrow> 'o world \<times> (error + unit)" where
  "saveAgent percent transport up eventSink w =
     (case downloadAgent percent transport eventSink w of
        (w1, Inl e) \<Rightarrow> (w1, Inl e)
      | (w1, Inr agent) \<Rightarrow>
          (let w2 = logInfo eventSink ''Got bytes, converting into readable stream'' w1;
               w3 = logInfo eventSink ''Writing agent to quest!'' w2;
               w4 = w3\<lparr>adb_calls := adb_calls w3 @ [sync_write AgentPath agent]\<rparr>
           in (w4, race_upload up)))"

subsection \<open>prepareAgent and overwriteAgent: provisioning\<close>

text \<open>
  The device as provisioning sees it: what \<^verbatim>\<open>adb.subprocess.spawnAndWait\<close> gives for a
  command (\<open>Inl\<close> when the promise rejects, \<open>Inr\<close> the captured standard output).
\<close>

type_synonym device = "string \<Rightarrow> error + string"

text \<open>The commands of lines 57 and 61.\<close>

definition rm_command :: string where
  "rm_command = ''rm '' @ AgentPath"

definition chmod_command :: string where
  "chmod_command = ''chmod +x '' @ AgentPath"

text \<open>The \<^verbatim>\<open>try\<close> block of \<^verbatim>\<open>overwriteAgent\<close>, lines 56 to 63.\<close>

definition overwrite_body ::
  "device \<Rightarrow> (nat \<Rightarrow> nat \<Rightarrow> string) \<Rightarrow> (nat \<Rightarrow> xhr_run) \<Rightarrow> upload_run \<Rightarrow> 'o LogEventSink
     \<Rightarrow> 'o world \<Rightarrow> 'o world \<times> (error + unit)" where
  "overwrite_body dev percent transport up eventSink w =
     (let w1 = logInfo eventSink ''Removing existing agent'' w;
          w2 = w1\<lparr>adb_calls := adb_calls w1 @ [spawnAndWait rm_command]\<rparr>
      in case dev rm_command of
           Inl e \<Rightarrow> (w2, Inl e)
         | Inr out \<Rightarrow>
             (let w3 = logInfo eventSink
                         ''Downloading agent, this might take a minute if it's not cached'' w2
              in case saveAgent percent transport up eventSink w3 of
                   (w4, Inl e) \<Rightarrow> (w4, Inl e)
                 | (w4, Inr u) \<Rightarrow>
                     (let w5 = logInfo eventSink ''Making agent executable'' w4;
                          w6 = w5\<lparr>adb_calls := adb_calls w5 @ [spawnAndWait chmod_command]\<rparr>
                      in case dev chmod_command of
                           Inl e \<Rightarrow> (w6, Inl e)
                         | Inr out1 \<Rightarrow> (logInfo eventSink ''Agent is ready'' w6, Inr ()))))"

text \<open>\<^verbatim>\<open>overwriteAgent\<close>: the body between \<^verbatim>\<open>adb.sync()\<close> and the \<^verbatim>\<open>finally\<close> block.\<close>

definition overwriteAgent ::
  "device \<Rightarrow> (nat \<Rightarrow> nat \<Rightarrow> string) \<Rightarrow> (nat \<Rightarrow> xhr_run) \<Rightarrow> upload_run \<Rightarrow> 'o LogEventSink
     \<Rightarrow> 'o world \<Rightarrow> 'o world \<times> (error + unit)" where
  "overwriteAgent dev percent transport up eventSink w =
     (let w1 = w\<lparr>adb_calls := adb_calls w @ [sync]\<rparr>;
          w2 = w1\<lparr>console := console w1
                 @ [console_group ''Downloading and overwriting agent on Quest'']\<rparr>
      in case overwrite_body dev percent transport up eventSink w2 of
           (w3, r) \<Rightarrow>
             (let w4 = w3\<lparr>adb_calls := adb_calls w3 @ [sync_dispose]\<rparr>
              in (w4\<lparr>console := console w4 @ [console_groupEnd]\<rparr>, r)))"

text \<open>
  \<^verbatim>\<open>String.prototype.trim\<close> and \<^verbatim>\<open>toUpperCase\<close> on ASCII text, which is what
  \<^verbatim>\<open>sha1sum\<close> and the shell print: \<open>trim\<close> removes white space at both ends,
  \<open>toUpperCase\<close> changes the letters a to z and nothing else. On text with a character
  from \<^verbatim>\<open>U+0080\<close> on, JavaScript does more (\<^verbatim>\<open>U+00E9\<close> becomes \<^verbatim>\<open>U+00C9\<close>); the
  properties of \<^verbatim>\<open>prepareAgent\<close> are stated for a hash command that answers \<open>is_ascii\<close>
  text.
\<close>

definition is_ascii :: "string \<Rightarrow> bool" where
  "is_ascii s = list_all (\<lambda>c. \<not> digit7 c) s"

definition is_space :: "char \<Rightarrow> bool" where
  "is_space c =
     (c = CHR 0x09 \<or> c = CHR 0x0A \<or> c = CHR 0x0B \<or> c = CHR 0x0C \<or> c = CHR 0x0D
        \<or> c = CHR 0x20 \<or> c = CHR 0xA0)"

definition trim :: "string \<Rightarrow> string" where
  "trim s = rev (dropWhile is_space (rev (dropWhile is_space s)))"

definition upper_char :: "char \<Rightarrow> char" where
  "upper_char c =
     (case map_of (zip ''abcdefghijklmnopqrstuvwxyz'' ''ABCDEFGHIJKLMNOPQRSTUVWXYZ'') c of
        None \<Rightarrow> c
      | Some u \<Rightarrow> u)"

definition toUpperCase :: "string \<Rightarrow> string" where
  "toUpperCase s = map upper_char s"

definition sha1_command :: string where
  "sha1_command = ''sha1sum '' @ AgentPath @ '' | cut -f 1 -d '' @ [CHR 0x22, CHR 0x20, CHR 0x22]"

text \<open>\<open>AGENT_SHA1\<close> is the constant of \<^verbatim>\<open>agent_manifest.ts\<close>, a parameter here.\<close>

definition prepareAgent ::
  "string \<Rightarrow> device \<Rightarrow> (nat \<Rightarrow> nat \<Rightarrow> string) \<Rightarrow> (nat \<Rightarrow> xhr_run) \<Rightarrow> upload_run
     \<Rightarrow> 'o LogEventSink \<Rightarrow> 'o world \<Rightarrow> 'o world \<times> (error + unit)" where
  "prepareAgent AGENT_SHA1 dev percent transport up eventSink w =
     (let w1 = logInfo eventSink ''Preparing agent: used to communicate with your Quest.'' w;
          w2 = w1\<lparr>console := console w1 @ [console_log (''Latest agent SHA1 '' @ AGENT_SHA1)]\<rparr>;
          w3 = w2\<lparr>adb_calls := adb_calls w2 @ [spawnAndWait sha1_command]\<rparr>
      in case dev sha1_command of
           Inl e \<Rightarrow> (w3, Inl e)
         | Inr out \<Rightarrow>
             (let exsitingSha1 = toUpperCase (trim out);
                  w4 = w3\<lparr>console := console w3
                         @ [console_log (''Existing agent SHA1: '' @ exsitingSha1)]\<rparr>;
                  existingUpToDate = (AGENT_SHA1 = toUpperCase (trim exsitingSha1))
              in if existingUpToDate then (logInfo eventSink ''Agent is up to date'' w4, Inr ())
                 else overwriteAgent dev percent transport up eventSink w4))"

subsection \<open>patchApp\<close>

text \<open>
  The requests \<^verbatim>\<open>Agent.ts\<close> builds, and the fields of \<^verbatim>\<open>ModStatus\<close> and \<^verbatim>\<open>Patched\<close>
  (declared in \<^verbatim>\<open>Messages.ts\<close>) that \<^verbatim>\<open>patchApp\<close> reads and writes. \<open>'m\<close> is
  \<^verbatim>\<open>Mod\<close>; \<open>None\<close> is \<^verbatim>\<open>null\<close>. The two arguments of the \<^verbatim>\<open>console.log\<close> of
  line 355 are kept as one line of text.
\<close>

datatype Request =
    GetModStatus "string option"
  | SetModsEnabled "(string \<times> bool) list"
  | GetDowngradedManifest string
  | Import string
  | ImportUrl string
  | RemoveMod string
  | Patch "string option" string bool "string option" bool
  | QuickFix "string option" bool
  | FixPlayerData

record AppInfo =
  loader_installed :: string
  version :: string
  manifest_xml :: string

record ('s, 'd) CoreModsInfo =
  all_core_mods_installed :: bool
  supported_versions :: 's
  downgrade_versions :: "'d list"

record ('m, 's, 'd) ModStatus =
  app_info :: "AppInfo option"
  core_mods :: "('s, 'd) CoreModsInfo option"
  modloader_present :: bool
  installed_mods :: "'m list"

record 'm Patched =
  patched_installed_mods :: "'m list"
  did_remove_dlc :: bool

definition dlc_warning :: string where
  "dlc_warning = ''MBF (temporarily) deleted installed DLC while downgrading your game. To get them back, FIRST restart your headset THEN download the DLC in-game.''"

text \<open>\<^verbatim>\<open>downgradeToVersion ?? beforePatch.app_info!.version\<close>: the right operand is
  read only when the left one is \<^verbatim>\<open>null\<close>, and reading it throws a \<^verbatim>\<open>TypeError\<close>
  when \<^verbatim>\<open>app_info\<close> is \<^verbatim>\<open>null\<close>.\<close>

definition version_after :: "string option \<Rightarrow> AppInfo option \<Rightarrow> error + string" where
  "version_after downgradeToVersion info =
     (case downgradeToVersion of
        Some v \<Rightarrow> Inr v
      | None \<Rightarrow> (case info of None \<Rightarrow> Inl TypeError | Some ai \<Rightarrow> Inr (version ai)))"

text \<open>
  \<open>CORE_MOD_OVERRIDE_URL\<close> is the module variable. The non-null assertion on
  \<^verbatim>\<open>beforePatch.core_mods\<close> throws a \<^verbatim>\<open>TypeError\<close> on \<^verbatim>\<open>null\<close>, after the one on
  \<^verbatim>\<open>beforePatch.app_info\<close> in the order of the object literal.
\<close>

definition patchApp ::
  "string option \<Rightarrow> (Request \<Rightarrow> string) \<Rightarrow> (string \<Rightarrow> 'm Patched Response option) \<Rightarrow> agent_run
     \<Rightarrow> ('m, 's, 'd) ModStatus \<Rightarrow> string option \<Rightarrow> string \<Rightarrow> bool \<Rightarrow> bool
     \<Rightarrow> 'o LogEventSink \<Rightarrow> 'o world \<Rightarrow> 'o world \<times> (error + ('m, 's, 'd) ModStatus)" where
  "patchApp CORE_MOD_OVERRIDE_URL stringify parse run beforePatch downgradeToVersion manifestMod
      remodding allow_no_core_mods eventSink w =
     (let w1 = w\<lparr>console := console w @ [console_log (''Patching with manifest '' @ manifestMod)]\<rparr>
      in case sendRequest stringify parse run
                (Patch downgradeToVersion manifestMod allow_no_core_mods CORE_MOD_OVERRIDE_URL
                   remodding) eventSink w1 of
           (w2, Inl e) \<Rightarrow> (w2, Inl e)
         | (w2, Inr response) \<Rightarrow>
             (let w3 = (if did_remove_dlc response
                        then w2\<lparr>toasts := toasts w2 @ [dlc_warning]\<rparr> else w2)
              in case version_after downgradeToVersion (app_info beforePatch) of
                   Inl e \<Rightarrow> (w3, Inl e)
                 | Inr v \<Rightarrow>
                     (case core_mods beforePatch of
                        None \<Rightarrow> (w3, Inl TypeError)
                      | Some cm \<Rightarrow>
                          (w3, Inr \<lparr>app_info = Some \<lparr>loader_installed = ''Scotland2'',
                                                     version = v,
                                                     manifest_xml = manifestMod\<rparr>,
                                    core_mods = Some \<lparr>all_core_mods_installed = True,
                                                      supported_versions = supported_versions cm,
                                                      downgrade_versions = []\<rparr>,
                                    modloader_present = True,
                                    installed_mods = patched_installed_mods response\<rparr>))))"

subsection \<open>Concrete runs\<close>

text \<open>
  Inputs for running the model: an empty world whose observer keeps the events it is
  given, a stand-in for \<^verbatim>\<open>JSON.parse\<close> that knows three frames, and a transfer that
  ends with a given event.
\<close>

definition world0 :: "LogMsg list world" where
  "world0 = \<lparr>console = [], observer = [], adb_calls = [], xhr_sent = 0, toasts = []\<rparr>"

definition keep_events :: "LogMsg list LogEventSink" where
  "keep_events = Some (\<lambda>event events. events @ [event])"

definition parse3 :: "string \<Rightarrow> nat Response option" where
  "parse3 s =
     (if s = ''info'' then Some (Log \<lparr>level = Info, message = ''checking''\<rparr>)
      else if s = ''fail'' then Some (Log \<lparr>level = Error, message = ''boom''\<rparr>)
      else if s = ''done'' then Some (Result 7)
      else None)"

definition transfer :: "xhr_end \<Rightarrow> xhr_run" where
  "transfer e = \<lparr>opened_at = 0, progress = [], ended = e\<rparr>"

text \<open>For \<^verbatim>\<open>patchApp\<close>: a stand-in for \<^verbatim>\<open>JSON.parse\<close> that knows one log frame and one
  \<^verbatim>\<open>Patched\<close> frame, and a status before patching.\<close>

definition parse_patched :: "string \<Rightarrow> nat Patched Response option" where
  "parse_patched s =
     (if s = ''info'' then Some (Log \<lparr>level = Info, message = ''patching''\<rparr>)
      else if s = ''patched'' then
        Some (Result \<lparr>patched_installed_mods = [4, 2], did_remove_dlc = True\<rparr>)
      else None)"

definition before0 :: "(nat, string list, string) ModStatus" where
  "before0 =
     \<lparr>app_info = Some \<lparr>loader_installed = ''Unknown'', version = ''1.40.8'',
                        manifest_xml = ''<old/>''\<rparr>,
      core_mods = Some \<lparr>all_core_mods_installed = False,
                         supported_versions = [''1.37.0''],
                         downgrade_versions = [''1.37.0'']\<rparr>,
      modloader_present = False,
      installed_mods = [9]\<rparr>"

section \<open>Properties\<close>

text \<open>The definitions unfolded to run the model on a concrete input.\<close>

lemmas run_simps =
  js_split_def frame_chunk_def parse3_def on_read_def handle_message_def keep_events_def
  logFromAgent_def open_session_def world0_def

subsection \<open>Framing\<close>

lemma split_from_nonempty: "split_from sep cur s \<noteq> []"
  by (induction s arbitrary: cur) auto

lemma split_from_append:
  "split_from sep cur (a @ b) =
     butlast (split_from sep cur a) @ split_from sep (last (split_from sep cur a)) b"
  by (induction a arbitrary: cur) (auto simp: split_from_nonempty)

lemma js_split_nonempty: "js_split s sep \<noteq> []"
  by (simp add: js_split_def split_from_nonempty)

lemma split_from_acc:
  "sep \<notin> set cur \<Longrightarrow> split_from sep acc (cur @ b) = split_from sep (acc @ cur) b"
  by (induction cur arbitrary: acc) auto

lemma last_split_from_free:
  "sep \<notin> set cur \<Longrightarrow> sep \<notin> set (last (split_from sep cur s))"
  by (induction s arbitrary: cur) (auto simp: split_from_nonempty)

lemma js_split_free: "sep \<notin> set s \<Longrightarrow> js_split s sep = [s]"
  using split_from_acc [of sep s "[]" "[]"] by (simp add: js_split_def)

lemma last_js_split_free: "sep \<notin> set (last (js_split s sep))"
  by (simp add: js_split_def last_split_from_free)

text \<open>Splitting a text in two pieces: the segment left open by the first piece is
  continued by the second.\<close>

lemma js_split_append:
  "js_split (a @ b) sep = butlast (js_split a sep) @ js_split (last (js_split a sep) @ b) sep"
proof -
  have "sep \<notin> set (last (split_from sep [] a))"
    by (rule last_split_from_free) simp
  then have "split_from sep [] (last (split_from sep [] a) @ b)
      = split_from sep (last (split_from sep [] a)) b"
    using split_from_acc [of sep "last (split_from sep [] a)" "[]" b] by simp
  then show ?thesis
    by (simp add: js_split_def split_from_append)
qed

lemma frames_loop_append:
  "frames_loop parse sink (a @ b) resp w =
     (case frames_loop parse sink a resp w of
        (w1, Inl e) \<Rightarrow> (w1, Inl e)
      | (w1, Inr resp1) \<Rightarrow> frames_loop parse sink b resp1 w1)"
  by (induction a arbitrary: resp w) (auto split: option.splits prod.splits sum.splits)

text \<open>With a buffer that holds no newline (as the buffer of the loop always is), the
  frames handed to \<^verbatim>\<open>JSON.parse\<close> over a run are the segments of the whole text but
  the last.\<close>

lemma frames_read_eq:
  "newline \<notin> set buf \<Longrightarrow>
   frames_read rs buf = butlast (js_split (buf @ received_text rs) newline)"
proof (induction rs buf rule: frames_read.induct)
  case (1 buffer)
  then show ?case by (simp add: js_split_free)
next
  case (2 rs buffer)
  then show ?case by simp
next
  case (3 s rs buffer)
  have "js_split (buffer @ s @ received_text rs) newline =
      butlast (js_split (buffer @ s) newline)
        @ js_split (last (js_split (buffer @ s) newline) @ received_text rs) newline"
    using js_split_append [of "buffer @ s" "received_text rs" newline] by simp
  with 3 show ?case
    by (simp add: frame_chunk_def Let_def butlast_append js_split_nonempty last_js_split_free)
qed

text \<open>The loop over the reads is the loop over the frames of the whole text.\<close>

lemma stream_loop_eq:
  "newline \<notin> set buf \<Longrightarrow> stream_loop parse sink rs (buf, resp) w =
     (case frames_loop parse sink (frames_read rs buf) resp w of
        (w1, Inl e) \<Rightarrow> (w1, Inl e)
      | (w1, Inr resp1) \<Rightarrow>
          (w1, Inr (last (js_split (buf @ received_text rs) newline), resp1)))"
proof (induction rs buf arbitrary: resp w rule: frames_read.induct)
  case (1 buffer)
  then show ?case by (simp add: js_split_free)
next
  case (2 rs buffer)
  then show ?case by (simp add: on_read_def split: prod.splits sum.splits)
next
  case (3 s rs buffer)
  have "js_split (buffer @ s @ received_text rs) newline =
      butlast (js_split (buffer @ s) newline)
        @ js_split (last (js_split (buffer @ s) newline) @ received_text rs) newline"
    using js_split_append [of "buffer @ s" "received_text rs" newline] by simp
  then have l: "last (js_split (buffer @ s @ received_text rs) newline) =
      last (js_split (last (js_split (buffer @ s) newline) @ received_text rs) newline)"
    by (simp add: js_split_nonempty)
  show ?case
    by (simp add: on_read_def frame_chunk_def Let_def frames_loop_append l 3 last_js_split_free
        split: prod.splits sum.splits)
qed

text \<open>Over frames that all parse, the \<^verbatim>\<open>for\<close> loop handles the parsed messages one
  after the other, in order.\<close>

lemma frames_loop_fold:
  "map parse fs = map Some msgs \<Longrightarrow>
   frames_loop parse sink fs response w =
     (case foldl (\<lambda>(w, r) m. handle_message sink m r w) (w, response) msgs of
        (w1, r1) \<Rightarrow> (w1, Inr r1))"
proof (induction fs arbitrary: msgs response w)
  case Nil
  then show ?case by simp
next
  case (Cons f fs)
  then obtain m ms where msgs: "msgs = m # ms" and m: "parse f = Some m"
    and ms: "map parse fs = map Some ms"
    by (cases msgs) auto
  obtain w1 r1 where h: "handle_message sink m response w = (w1, r1)"
    by (cases "handle_message sink m response w")
  show ?case
    using Cons.IH [OF ms, of r1 w1] by (simp add: msgs m h)
qed

text \<open>
  C1. The loop over the reads of a run parses, in order, every newline-separated segment
  of the text received but the last, each as one message, and keeps the last segment as
  the buffer: whatever the cuts into chunks (empty chunks, reads without a value and cuts
  inside a frame included), its outcome is that of the \<^verbatim>\<open>for\<close> loop over these
  segments, and when they all parse, to \<open>msgs\<close>, that of handling \<open>msgs\<close> one by one.
  So two sequences of reads that deliver the same text hand the same frames to
  \<^verbatim>\<open>JSON.parse\<close>, leave the loop in the same state (buffer, latched response, console,
  observer) or with the same exception, and \<^verbatim>\<open>sendRequest\<close> ends the same way.
\<close>

theorem chunk_boundaries_irrelevant:
  assumes "received_text reads1 = received_text reads2"
  shows "stream_loop parse eventSink reads1 ([], None) w =
           (case frames_loop parse eventSink
                   (butlast (js_split (received_text reads1) newline)) None w of
              (w1, Inl e) \<Rightarrow> (w1, Inl e)
            | (w1, Inr response) \<Rightarrow>
                (w1, Inr (last (js_split (received_text reads1) newline), response)))
       \<and> (map parse (butlast (js_split (received_text reads1) newline)) = map Some msgs
            \<longrightarrow> stream_loop parse eventSink reads1 ([], None) w =
                (case foldl (\<lambda>(w, r) m. handle_message eventSink m r w) (w, None) msgs of
                   (w1, response) \<Rightarrow>
                     (w1, Inr (last (js_split (received_text reads1) newline), response))))
       \<and> frames_read reads1 [] = butlast (js_split (received_text reads1) newline)
       \<and> frames_read reads1 [] = frames_read reads2 []
       \<and> stream_loop parse eventSink reads1 ([], None) w
           = stream_loop parse eventSink reads2 ([], None) w
       \<and> sendRequest stringify parse (run\<lparr>reads := reads1\<rparr>) request eventSink w0
           = sendRequest stringify parse (run\<lparr>reads := reads2\<rparr>) request eventSink w0"
proof -
  have f: "frames_read rs [] = butlast (js_split (received_text rs) newline)" for rs
    by (simp add: frames_read_eq)
  have c: "stream_loop parse eventSink rs ([], None) v =
           (case frames_loop parse eventSink (butlast (js_split (received_text rs) newline)) None v of
              (w1, Inl e) \<Rightarrow> (w1, Inl e)
            | (w1, Inr response) \<Rightarrow>
                (w1, Inr (last (js_split (received_text rs) newline), response)))" for rs v
    using stream_loop_eq [of "[]" parse eventSink rs None v] by (simp add: f)
  have s: "stream_loop parse eventSink reads1 ([], None) v
         = stream_loop parse eventSink reads2 ([], None) v" for v
    by (simp only: c assms)
  have m: "stream_loop parse eventSink reads1 ([], None) w =
                (case foldl (\<lambda>(w, r) m. handle_message eventSink m r w) (w, None) msgs of
                   (w1, response) \<Rightarrow>
                     (w1, Inr (last (js_split (received_text reads1) newline), response)))"
    if "map parse (butlast (js_split (received_text reads1) newline)) = map Some msgs"
    using frames_loop_fold [OF that, of eventSink None w]
    by (simp add: c split: prod.splits)
  have r: "sendRequest stringify parse (run\<lparr>reads := reads1\<rparr>) request eventSink w0
           = sendRequest stringify parse (run\<lparr>reads := reads2\<rparr>) request eventSink w0"
    by (simp add: sendRequest_def s split: prod.splits sum.splits)
  show ?thesis
    using c [of reads1 w] m f [of reads1] f [of reads2] assms s [of w] r by simp
qed

theorem chunk_boundaries_irrelevant_witness:
  "received_text [Some ''in'', Some [], None, Some (''fo'' @ [newline] @ ''do''), Some (''ne'' @ [newline] @ ''fa'')]
     = received_text [Some (''info'' @ [newline] @ ''done'' @ [newline] @ ''fa'')]
   \<and> frames_read [Some ''in'', Some [], None, Some (''fo'' @ [newline] @ ''do''), Some (''ne'' @ [newline] @ ''fa'')] []
     = [''info'', ''done'']
   \<and> stream_loop parse3 keep_events
        [Some ''in'', Some [], None, Some (''fo'' @ [newline] @ ''do''), Some (''ne'' @ [newline] @ ''fa'')]
        ([], None) world0
     = (\<lparr>console = [console_info ''checking''],
         observer = [\<lparr>level = Info, message = ''checking''\<rparr>],
         adb_calls = [], xhr_sent = 0, toasts = []\<rparr>,
        Inr (''fa'', Some (Result 7)))
   \<and> stream_loop parse3 keep_events
        [Some (''info'' @ [newline] @ ''done'' @ [newline] @ ''fa'')] ([], None) world0
     = (\<lparr>console = [console_info ''checking''],
         observer = [\<lparr>level = Info, message = ''checking''\<rparr>],
         adb_calls = [], xhr_sent = 0, toasts = []\<rparr>,
        Inr (''fa'', Some (Result 7)))
   \<and> sendRequest (\<lambda>r. r) parse3
        \<lparr>reads = [Some ''in'', Some [], None, Some (''fo'' @ [newline] @ ''do''), Some (''ne'' @ [newline] @ ''fa'')],
         exit_code = 0, stderr = []\<rparr> ''status'' keep_events world0
     = (\<lparr>console = [console_group ''Agent Request'', console_info ''checking'', console_groupEnd],
         observer = [\<lparr>level = Info, message = ''checking''\<rparr>],
         adb_calls = [spawn AgentPath, stdin_write (''status'' @ [newline])],
         xhr_sent = 0, toasts = []\<rparr>,
        Inr 7)
   \<and> sendRequest (\<lambda>r. r) parse3
        \<lparr>reads = [Some (''info'' @ [newline] @ ''done'' @ [newline] @ ''fa'')],
         exit_code = 0, stderr = []\<rparr> ''status'' keep_events world0
     = (\<lparr>console = [console_group ''Agent Request'', console_info ''checking'', console_groupEnd],
         observer = [\<lparr>level = Info, message = ''checking''\<rparr>],
         adb_calls = [spawn AgentPath, stdin_write (''status'' @ [newline])],
         xhr_sent = 0, toasts = []\<rparr>,
        Inr 7)"
  using chunk_boundaries_irrelevant
    [where ?reads1.0 = "[Some ''in'', Some [], None, Some (''fo'' @ [newline] @ ''do''), Some (''ne'' @ [newline] @ ''fa'')]"
       and ?reads2.0 = "[Some (''info'' @ [newline] @ ''done'' @ [newline] @ ''fa'')]"
       and stringify = "\<lambda>r. r" and parse = parse3
       and run = "\<lparr>reads = [], exit_code = 0, stderr = []\<rparr>"
       and request = "''status''" and eventSink = keep_events and ?w0.0 = world0 and w = world0
       and msgs = "[Log \<lparr>level = Info, message = ''checking''\<rparr>, Result 7]"]
  by (simp add: run_simps sendRequest_def resolve_def)

subsection \<open>Demultiplexing\<close>

text \<open>Lines 222 to 237 never throw: over frames that all parse, the loop ends normally.\<close>

lemma frames_loop_valid:
  "\<forall>f\<in>set fs. parse f \<noteq> None \<Longrightarrow> \<exists>w1 r. frames_loop parse sink fs resp w = (w1, Inr r)"
proof (induction fs arbitrary: resp w)
  case Nil
  then show ?case by simp
next
  case (Cons f fs)
  then obtain m where m: "parse f = Some m" by auto
  obtain w1 r1 where h: "handle_message sink m resp w = (w1, r1)" by (cases "handle_message sink m resp w")
  from Cons have "\<exists>w2 r. frames_loop parse sink fs r1 w1 = (w2, Inr r)" by simp
  with m h show ?case by simp
qed

lemma map_eq_snoc:
  "map f xs = ys @ [y] \<Longrightarrow> \<exists>xs1 x. xs = xs1 @ [x] \<and> map f xs1 = ys \<and> f x = y"
  by (cases xs rule: rev_cases) auto

text \<open>
  C2. When the frames of a run parse to any number of log messages \<open>ls\<close> (of any level,
  \<^verbatim>\<open>Error\<close> included) followed by one message \<open>p\<close> that is not a \<^verbatim>\<open>LogMsg\<close>, the
  loop ends normally and the latched \<^verbatim>\<open>response\<close> is that last message.
\<close>

theorem terminal_overrides_latched:
  assumes "map parse (frames_read rs []) = map (\<lambda>l. Some (Log l)) ls @ [Some (Result p)]"
  shows "\<exists>w1. stream_loop parse sink rs ([], None) w
            = (w1, Inr (last (js_split (received_text rs) newline), Some (Result p)))"
proof -
  from assms obtain fs t where fr: "frames_read rs [] = fs @ [t]"
    and fs: "map parse fs = map (\<lambda>l. Some (Log l)) ls" and t: "parse t = Some (Result p)"
    using map_eq_snoc [of parse "frames_read rs []" "map (\<lambda>l. Some (Log l)) ls" "Some (Result p)"]
    by auto
  have "\<forall>f\<in>set fs. parse f \<noteq> None"
  proof
    fix f assume "f \<in> set fs"
    then have "parse f \<in> set (map parse fs)" by simp
    with fs show "parse f \<noteq> None" by auto
  qed
  then obtain w1 r where l: "frames_loop parse sink fs None w = (w1, Inr r)"
    using frames_loop_valid [of fs parse sink None w] by auto
  have "frames_loop parse sink (fs @ [t]) None w = (w1, Inr (Some (Result p)))"
    using l t by (simp add: frames_loop_append handle_message_def)
  then show ?thesis
    using stream_loop_eq [of "[]" parse sink rs None w] by (simp add: fr)
qed


theorem terminal_overrides_latched_witness:
  "map parse3 (frames_read [Some (''fail'' @ [newline] @ ''do''), Some (''ne'' @ [newline])] [])
     = map (\<lambda>l. Some (Log l)) [\<lparr>level = Error, message = ''boom''\<rparr>] @ [Some (Result 7)]
   \<and> (\<exists>w1. stream_loop parse3 keep_events
              [Some (''fail'' @ [newline] @ ''do''), Some (''ne'' @ [newline])] ([], None) world0
            = (w1, Inr ([], Some (Result 7))))"
  using terminal_overrides_latched
    [where parse = parse3 and rs = "[Some (''fail'' @ [newline] @ ''do''), Some (''ne'' @ [newline])]"
       and ls = "[\<lparr>level = Error, message = ''boom''\<rparr>]" and p = 7 and sink = keep_events
       and w = world0]
  by (simp add: js_split_def frame_chunk_def parse3_def)


text \<open>
  C5. When the complete frames of a run are \<open>good\<close>, which all parse, then \<open>bad\<close>, which
  \<^verbatim>\<open>JSON.parse\<close> rejects, then any \<open>rest\<close>, \<^verbatim>\<open>sendRequest\<close> throws the error whose
  message quotes \<open>bad\<close> verbatim, and the world it leaves is the one after the frames of
  \<open>good\<close> alone: nothing of \<open>rest\<close> is parsed, logged or passed to the sink.
\<close>

theorem invalid_frame_aborts:
  assumes "frames_read (reads run) [] = good @ bad # rest"
    and "\<forall>f\<in>set good. parse f \<noteq> None"
    and "parse bad = None"
  shows "\<exists>w1 latched.
           frames_loop parse sink good None (open_session stringify request w) = (w1, Inr latched)
         \<and> sendRequest stringify parse run request sink w
             = (w1, Inl (JsError (''Agent message '' @ bad @ '' was not valid JSON'')))"
proof -
  obtain w1 r where l: "frames_loop parse sink good None (open_session stringify request w) = (w1, Inr r)"
    using frames_loop_valid [OF assms(2), of sink None "open_session stringify request w"] by auto
  have "frames_loop parse sink (good @ bad # rest) None (open_session stringify request w)
      = (w1, Inl (JsError (''Agent message '' @ bad @ '' was not valid JSON'')))"
    using l assms(3) by (simp add: frames_loop_append)
  then have "stream_loop parse sink (reads run) ([], None) (open_session stringify request w)
      = (w1, Inl (JsError (''Agent message '' @ bad @ '' was not valid JSON'')))"
    using stream_loop_eq [of "[]" parse sink "reads run" None "open_session stringify request w"]
    by (simp add: assms(1))
  then show ?thesis
    using l by (simp add: sendRequest_def)
qed

theorem invalid_frame_aborts_witness:
  "frames_read (reads \<lparr>reads = [Some (''info'' @ [newline] @ ''oops''), Some ([newline] @ ''fail'' @ [newline])],
                       exit_code = 0, stderr = []\<rparr>) []
     = [''info''] @ ''oops'' # [''fail'']
   \<and> parse3 ''info'' \<noteq> None \<and> parse3 ''oops'' = None
   \<and> sendRequest (\<lambda>r. r) parse3
        \<lparr>reads = [Some (''info'' @ [newline] @ ''oops''), Some ([newline] @ ''fail'' @ [newline])],
         exit_code = 0, stderr = []\<rparr> ''status'' keep_events world0
       = (\<lparr>console = [console_group ''Agent Request'', console_info ''checking''],
           observer = [\<lparr>level = Info, message = ''checking''\<rparr>],
           adb_calls = [spawn AgentPath, stdin_write (''status'' @ [newline])],
           xhr_sent = 0, toasts = []\<rparr>,
          Inl (JsError ''Agent message oops was not valid JSON''))"
  using invalid_frame_aborts
    [where run = "\<lparr>reads = [Some (''info'' @ [newline] @ ''oops''), Some ([newline] @ ''fail'' @ [newline])],
                    exit_code = 0, stderr = []\<rparr>"
       and good = "[''info'']" and bad = "''oops''" and rest = "[''fail'']" and parse = parse3
       and sink = keep_events and stringify = "\<lambda>r. r" and request = "''status''" and w = world0]
  by (simp add: js_split_def frame_chunk_def parse3_def open_session_def world0_def keep_events_def
      handle_message_def logFromAgent_def)

subsection \<open>Resolution\<close>

text \<open>The latched response satisfies \<open>latch_ok\<close> throughout the loop.\<close>

lemma handle_message_latch:
  "latch_ok resp \<Longrightarrow> handle_message sink m resp w = (w1, resp1) \<Longrightarrow> latch_ok resp1"
  by (cases m) (auto simp: handle_message_def Let_def split: if_splits)

lemma frames_loop_latch:
  "latch_ok resp \<Longrightarrow> frames_loop parse sink fs resp w = (w1, Inr resp1) \<Longrightarrow> latch_ok resp1"
proof (induction fs arbitrary: resp w)
  case Nil
  then show ?case by simp
next
  case (Cons f fs)
  from Cons.prems(2) obtain m where m: "parse f = Some m"
    by (cases "parse f") auto
  obtain w2 r2 where h: "handle_message sink m resp w = (w2, r2)"
    by (cases "handle_message sink m resp w")
  have "latch_ok r2" using handle_message_latch [OF Cons.prems(1) h] .
  moreover have "frames_loop parse sink fs r2 w2 = (w1, Inr resp1)"
    using Cons.prems(2) m h by simp
  ultimately show ?case using Cons.IH by blast
qed

lemma stream_loop_latch:
  assumes "stream_loop parse sink rs ([], None) w = (w1, Inr (buf, latched))"
  shows "latch_ok latched"
proof -
  have "frames_loop parse sink (frames_read rs []) None w = (w1, Inr latched)"
    using assms stream_loop_eq [of "[]" parse sink rs None w]
    by (auto split: prod.splits sum.splits)
  then show ?thesis
    using frames_loop_latch [of None parse sink "frames_read rs []" w w1 latched] by simp
qed

text \<open>
  C3. When the loop has ended normally with \<open>latched\<close> as the latched response and the
  exit code is 0, \<^verbatim>\<open>sendRequest\<close> returns the latched message when it is not a
  \<^verbatim>\<open>LogMsg\<close>, throws an error whose message is the log's message between backquotes
  when it is a \<^verbatim>\<open>LogMsg\<close> (then always of level \<^verbatim>\<open>Error\<close>), and throws
  \<^verbatim>\<open>Received error response from agent\<close> when nothing was latched.
\<close>

theorem exit_zero_resolves_by_latched:
  assumes "stream_loop parse sink (reads run) ([], None) (open_session stringify request w)
             = (w3, Inr (buffer, latched))"
    and "exit_code run = 0"
  shows "sendRequest stringify parse run request sink w
           = (w3\<lparr>console := console w3 @ [console_groupEnd]\<rparr>,
              case latched of
                None \<Rightarrow> Inl (JsError ''Received error response from agent'')
              | Some (Log log) \<Rightarrow> Inl (JsError (''`'' @ message log @ ''`''))
              | Some (Result p) \<Rightarrow> Inr p)
       \<and> (case latched of Some (Log log) \<Rightarrow> level log = Error | _ \<Rightarrow> True)"
proof -
  have "latch_ok latched" using stream_loop_latch [OF assms(1)] .
  then show ?thesis
    using assms by (cases latched rule: latch_ok.cases) (simp_all add: sendRequest_def resolve_def)
qed

text \<open>
  C4. When the loop has ended normally and the exit code is not 0, \<^verbatim>\<open>sendRequest\<close>
  throws whatever was latched, a result included, and the message of the error is
  \<^verbatim>\<open>Failed to invoke agent: is the executable corrupt?\<close> followed by all the chunks
  of standard error, concatenated.
\<close>

theorem exit_nonzero_fails_with_stderr:
  assumes "stream_loop parse sink (reads run) ([], None) (open_session stringify request w)
             = (w3, Inr (buffer, latched))"
    and "exit_code run \<noteq> 0"
  shows "sendRequest stringify parse run request sink w
           = (w3\<lparr>console := console w3 @ [console_groupEnd]\<rparr>,
              Inl (JsError (''Failed to invoke agent: is the executable corrupt?''
                              @ concat (stderr run))))"
  using assms by (simp add: sendRequest_def resolve_def)

theorem exit_zero_resolves_by_latched_witness:
  "snd (sendRequest (\<lambda>r. r) parse3
          \<lparr>reads = [Some (''fail'' @ [newline] @ ''done'' @ [newline])], exit_code = 0, stderr = []\<rparr>
          ''status'' keep_events world0) = Inr 7
   \<and> snd (sendRequest (\<lambda>r. r) parse3
          \<lparr>reads = [Some (''info'' @ [newline] @ ''fail'' @ [newline])], exit_code = 0, stderr = []\<rparr>
          ''status'' keep_events world0) = Inl (JsError ''`boom`'')
   \<and> snd (sendRequest (\<lambda>r. r) parse3
          \<lparr>reads = [Some (''info'' @ [newline]), None], exit_code = 0, stderr = []\<rparr>
          ''status'' keep_events world0) = Inl (JsError ''Received error response from agent'')"
  using exit_zero_resolves_by_latched
    [where parse = parse3 and sink = keep_events and stringify = "\<lambda>r. r" and request = "''status''"
       and w = world0
       and run = "\<lparr>reads = [Some (''fail'' @ [newline] @ ''done'' @ [newline])], exit_code = 0, stderr = []\<rparr>"
       and buffer = "[]" and latched = "Some (Result 7)"
       and ?w3.0 = "fst (stream_loop parse3 keep_events [Some (''fail'' @ [newline] @ ''done'' @ [newline])]
                      ([], None) (open_session (\<lambda>r. r) ''status'' world0))"]
    exit_zero_resolves_by_latched
    [where parse = parse3 and sink = keep_events and stringify = "\<lambda>r. r" and request = "''status''"
       and w = world0
       and run = "\<lparr>reads = [Some (''info'' @ [newline] @ ''fail'' @ [newline])], exit_code = 0, stderr = []\<rparr>"
       and buffer = "[]" and latched = "Some (Log \<lparr>level = Error, message = ''boom''\<rparr>)"
       and ?w3.0 = "fst (stream_loop parse3 keep_events [Some (''info'' @ [newline] @ ''fail'' @ [newline])]
                      ([], None) (open_session (\<lambda>r. r) ''status'' world0))"]
    exit_zero_resolves_by_latched
    [where parse = parse3 and sink = keep_events and stringify = "\<lambda>r. r" and request = "''status''"
       and w = world0
       and run = "\<lparr>reads = [Some (''info'' @ [newline]), None], exit_code = 0, stderr = []\<rparr>"
       and buffer = "[]" and latched = "None"
       and ?w3.0 = "fst (stream_loop parse3 keep_events [Some (''info'' @ [newline]), None]
                      ([], None) (open_session (\<lambda>r. r) ''status'' world0))"]
  by (simp add: run_simps)

theorem exit_nonzero_fails_with_stderr_witness:
  "snd (sendRequest (\<lambda>r. r) parse3
          \<lparr>reads = [Some (''done'' @ [newline])], exit_code = 1, stderr = [''seg'', ''fault'']\<rparr>
          ''status'' keep_events world0)
     = Inl (JsError ''Failed to invoke agent: is the executable corrupt?segfault'')"
  using exit_nonzero_fails_with_stderr
    [where parse = parse3 and sink = keep_events and stringify = "\<lambda>r. r" and request = "''status''"
       and w = world0
       and run = "\<lparr>reads = [Some (''done'' @ [newline])], exit_code = 1, stderr = [''seg'', ''fault'']\<rparr>"
       and buffer = "[]" and latched = "Some (Result 7)"
       and ?w3.0 = "fst (stream_loop parse3 keep_events [Some (''done'' @ [newline])]
                      ([], None) (open_session (\<lambda>r. r) ''status'' world0))"]
  by (simp add: run_simps)

subsection \<open>The event sink\<close>

text \<open>Running without a sink is running with one and forgetting what the observer saw.\<close>

lemma logFromAgent_observer:
  "logFromAgent l (w\<lparr>observer := a\<rparr>) = (logFromAgent l w)\<lparr>observer := a\<rparr>"
  by (cases "level l") (simp_all add: logFromAgent_def)

lemma observer_logFromAgent: "observer (logFromAgent l w) = observer w"
  by (cases "level l") (simp_all add: logFromAgent_def)

lemma handle_message_silent:
  "handle_message None m resp (w\<lparr>observer := a\<rparr>) =
     (case handle_message (Some f) m resp w of (w1, r) \<Rightarrow> (w1\<lparr>observer := a\<rparr>, r))"
  by (cases m) (simp_all add: handle_message_def Let_def logFromAgent_observer)

lemma frames_loop_silent:
  "frames_loop parse None fs resp (w\<lparr>observer := a\<rparr>) =
     (case frames_loop parse (Some f) fs resp w of (w1, r) \<Rightarrow> (w1\<lparr>observer := a\<rparr>, r))"
proof (induction fs arbitrary: resp w)
  case Nil
  then show ?case by simp
next
  case (Cons x fs)
  show ?case
  proof (cases "parse x")
    case None
    then show ?thesis by simp
  next
    case (Some m)
    obtain w1 r1 where h: "handle_message (Some f) m resp w = (w1, r1)"
      by (cases "handle_message (Some f) m resp w")
    then have "handle_message None m resp (w\<lparr>observer := a\<rparr>) = (w1\<lparr>observer := a\<rparr>, r1)"
      by (simp add: handle_message_silent [where f = f and w = w])
    with Some h show ?thesis by (simp add: Cons.IH)
  qed
qed

lemma stream_loop_silent:
  "stream_loop parse None rs ([], None) (w\<lparr>observer := a\<rparr>) =
     (case stream_loop parse (Some f) rs ([], None) w of (w1, r) \<Rightarrow> (w1\<lparr>observer := a\<rparr>, r))"
  by (simp add: stream_loop_eq frames_loop_silent [where f = f and w = w]
      split: prod.splits sum.splits)

lemma open_session_observer:
  "open_session stringify request w = (open_session stringify request w)\<lparr>observer := observer w\<rparr>"
  by (simp add: open_session_def Let_def)

text \<open>
  C9. For every request, run of the agent and sink \<open>f\<close>, \<^verbatim>\<open>sendRequest\<close> without a
  sink returns or throws exactly what it does with the sink \<open>f\<close>, and leaves the same
  world (console, calls on the device) but for the state of the observer, which it leaves
  untouched. The same holds of \<^verbatim>\<open>logInfo\<close>.
\<close>

theorem sink_does_not_change_protocol:
  "sendRequest stringify parse run request None w =
     (case sendRequest stringify parse run request (Some f) w of
        (w1, r) \<Rightarrow> (w1\<lparr>observer := observer w\<rparr>, r))
   \<and> logInfo None msg w = (logInfo (Some f) msg w)\<lparr>observer := observer w\<rparr>"
proof -
  have "stream_loop parse None (reads run) ([], None) (open_session stringify request w) =
     (case stream_loop parse (Some f) (reads run) ([], None) (open_session stringify request w) of
        (w1, r) \<Rightarrow> (w1\<lparr>observer := observer w\<rparr>, r))"
    using stream_loop_silent [where parse = parse and rs = "reads run" and f = f
        and w = "open_session stringify request w" and a = "observer w"]
      open_session_observer [of stringify request w] by simp
  then have "sendRequest stringify parse run request None w =
     (case sendRequest stringify parse run request (Some f) w of
        (w1, r) \<Rightarrow> (w1\<lparr>observer := observer w\<rparr>, r))"
    by (simp add: sendRequest_def split: prod.splits sum.splits)
  moreover have "logInfo None msg w = (logInfo (Some f) msg w)\<lparr>observer := observer w\<rparr>"
    by (simp add: logInfo_def Let_def)
  ultimately show ?thesis by simp
qed

theorem sink_does_not_change_protocol_witness:
  "sendRequest (\<lambda>r. r) parse3
      \<lparr>reads = [Some (''info'' @ [newline] @ ''done'' @ [newline])], exit_code = 0, stderr = []\<rparr>
      ''status'' None world0
    = (\<lparr>console = [console_group ''Agent Request'', console_info ''checking'', console_groupEnd],
        observer = [],
        adb_calls = [spawn AgentPath, stdin_write (''status'' @ [newline])],
        xhr_sent = 0, toasts = []\<rparr>, Inr 7)
   \<and> sendRequest (\<lambda>r. r) parse3
      \<lparr>reads = [Some (''info'' @ [newline] @ ''done'' @ [newline])], exit_code = 0, stderr = []\<rparr>
      ''status'' keep_events world0
    = (\<lparr>console = [console_group ''Agent Request'', console_info ''checking'', console_groupEnd],
        observer = [\<lparr>level = Info, message = ''checking''\<rparr>],
        adb_calls = [spawn AgentPath, stdin_write (''status'' @ [newline])],
        xhr_sent = 0, toasts = []\<rparr>, Inr 7)"
  using sink_does_not_change_protocol
    [where stringify = "\<lambda>r. r" and parse = parse3 and request = "''status''" and w = world0
       and run = "\<lparr>reads = [Some (''info'' @ [newline] @ ''done'' @ [newline])], exit_code = 0, stderr = []\<rparr>"
       and f = "\<lambda>event events. events @ [event]" and msg = "[]"]
  by (simp add: sendRequest_def resolve_def run_simps)

subsection \<open>The fetch with retries\<close>

lemma xhr_sent_logInfo: "xhr_sent (logInfo sink msg w) = xhr_sent w"
  by (cases sink) (simp_all add: logInfo_def Let_def)

lemma xhr_sent_onprogress: "xhr_sent (onprogress percent sink t evs w) = xhr_sent w"
  by (induction percent sink t evs w rule: onprogress.induct) (simp_all add: xhr_sent_logInfo)

lemma xhr_attempt_sent:
  "xhr_attempt percent sink xhr w = (w1, r) \<Longrightarrow> xhr_sent w1 = xhr_sent w + 1 \<and> r = xhr_result xhr"
  by (auto simp: xhr_attempt_def Let_def xhr_sent_onprogress)

lemma download_loop_ok:
  assumes "xhr_result (transport (xhr_sent w)) = Inr payload"
  shows "\<exists>w1. download_loop percent transport sink attempt w = (w1, Inr payload)
             \<and> xhr_sent w1 = xhr_sent w + 1"
proof -
  obtain w1 r where a: "xhr_attempt percent sink (transport (xhr_sent w)) w = (w1, r)"
    by (cases "xhr_attempt percent sink (transport (xhr_sent w)) w")
  with assms have "xhr_sent w1 = xhr_sent w + 1" "r = Inr payload"
    using xhr_attempt_sent [OF a] by simp_all
  with a show ?thesis
    by (subst download_loop.simps) (simp add: xhr_sent_logInfo)
qed

lemma download_loop_retry:
  assumes "xhr_result (transport (xhr_sent w)) = Inl e" and "attempt + 1 \<le> MAX_ATTEMPTS"
    and "attempt1 = attempt + 1"
  shows "\<exists>w1. download_loop percent transport sink attempt w
               = download_loop percent transport sink attempt1 w1
             \<and> xhr_sent w1 = xhr_sent w + 1"
proof -
  obtain w1 r where a: "xhr_attempt percent sink (transport (xhr_sent w)) w = (w1, r)"
    by (cases "xhr_attempt percent sink (transport (xhr_sent w)) w")
  with assms have s: "xhr_sent w1 = xhr_sent w + 1" and r: "r = Inl e"
    using xhr_attempt_sent [OF a] by simp_all
  define w3 where "w3 = logInfo sink
      (''Failed to download agent, trying again... (attempt ''
         @ show_nat (attempt + 1) @ ''/'' @ show_nat MAX_ATTEMPTS @ '')'')
      (logInfo sink (''Failed to fetch agent, status '' @ show_nat e) w1)"
  have s3: "xhr_sent w3 = xhr_sent w + 1"
    by (simp add: w3_def xhr_sent_logInfo s)
  have "download_loop percent transport sink attempt w
      = download_loop percent transport sink (attempt + 1) w3"
    using a r assms(2) by (subst download_loop.simps) (simp add: Let_def w3_def)
  then have "download_loop percent transport sink attempt w
      = download_loop percent transport sink attempt1 w3 \<and> xhr_sent w3 = xhr_sent w + 1"
    using s3 assms(3) by simp
  then show ?thesis by (rule exI)
qed

lemma download_loop_give_up:
  assumes "xhr_result (transport (xhr_sent w)) = Inl e" and "\<not> attempt + 1 \<le> MAX_ATTEMPTS"
  shows "\<exists>w1. download_loop percent transport sink attempt w
               = (w1, Inl (JsError fetch_failed_message))
             \<and> xhr_sent w1 = xhr_sent w + 1"
proof -
  obtain w1 r where a: "xhr_attempt percent sink (transport (xhr_sent w)) w = (w1, r)"
    by (cases "xhr_attempt percent sink (transport (xhr_sent w)) w")
  with assms have "xhr_sent w1 = xhr_sent w + 1" "r = Inl e"
    using xhr_attempt_sent [OF a] by simp_all
  with a assms(2) show ?thesis
    by (subst download_loop.simps) (simp add: xhr_sent_logInfo Let_def)
qed

text \<open>What \<^verbatim>\<open>downloadAgent\<close> does, by the outcome of the first three transfers.\<close>

lemma downloadAgent_first_ok:
  assumes "xhr_result (transport (xhr_sent w)) = Inr payload"
  shows "snd (downloadAgent percent transport sink w) = Inr payload
       \<and> xhr_sent (fst (downloadAgent percent transport sink w)) = xhr_sent w + 1"
proof -
  have "\<exists>w1. download_loop percent transport sink 1 w = (w1, Inr payload)
             \<and> xhr_sent w1 = xhr_sent w + 1"
    using assms by (rule download_loop_ok [where transport = transport and w = w])
  then obtain w1 where "download_loop percent transport sink 1 w = (w1, Inr payload)
             \<and> xhr_sent w1 = xhr_sent w + 1" ..
  then show ?thesis by (simp add: downloadAgent_def)
qed

lemma downloadAgent_retry_once:
  assumes "xhr_result (transport (xhr_sent w)) = Inl e0"
  shows "\<exists>w1. downloadAgent percent transport sink w = download_loop percent transport sink 2 w1
             \<and> xhr_sent w1 = xhr_sent w + 1"
  unfolding downloadAgent_def
  using assms
  by (rule download_loop_retry [where transport = transport and w = w])
     (simp_all add: MAX_ATTEMPTS_def)

lemma downloadAgent_retry_twice:
  assumes "xhr_result (transport (xhr_sent w)) = Inl e0"
    and "xhr_result (transport (xhr_sent w + 1)) = Inl e1"
  shows "\<exists>w2. downloadAgent percent transport sink w = download_loop percent transport sink 3 w2
             \<and> xhr_sent w2 = xhr_sent w + 2"
proof -
  obtain w1 where 1: "downloadAgent percent transport sink w
        = download_loop percent transport sink 2 w1 \<and> xhr_sent w1 = xhr_sent w + 1"
    using downloadAgent_retry_once [where transport = transport and w = w, OF assms(1)] ..
  with assms(2) have "xhr_result (transport (xhr_sent w1)) = Inl e1" by simp
  then have "\<exists>w2. download_loop percent transport sink 2 w1
        = download_loop percent transport sink 3 w2 \<and> xhr_sent w2 = xhr_sent w1 + 1"
    by (rule download_loop_retry [where transport = transport and w = w1])
       (simp_all add: MAX_ATTEMPTS_def)
  then obtain w2 where "download_loop percent transport sink 2 w1
        = download_loop percent transport sink 3 w2 \<and> xhr_sent w2 = xhr_sent w1 + 1" ..
  with 1 have "downloadAgent percent transport sink w = download_loop percent transport sink 3 w2
             \<and> xhr_sent w2 = xhr_sent w + 2" by simp
  then show ?thesis by (rule exI)
qed

lemma downloadAgent_second_ok:
  assumes "xhr_result (transport (xhr_sent w)) = Inl e0"
    and "xhr_result (transport (xhr_sent w + 1)) = Inr payload"
  shows "snd (downloadAgent percent transport sink w) = Inr payload
       \<and> xhr_sent (fst (downloadAgent percent transport sink w)) = xhr_sent w + 2"
proof -
  obtain w1 where 1: "downloadAgent percent transport sink w
        = download_loop percent transport sink 2 w1 \<and> xhr_sent w1 = xhr_sent w + 1"
    using downloadAgent_retry_once [where transport = transport and w = w, OF assms(1)] ..
  with assms(2) have "xhr_result (transport (xhr_sent w1)) = Inr payload" by simp
  then have "\<exists>w2. download_loop percent transport sink 2 w1 = (w2, Inr payload)
             \<and> xhr_sent w2 = xhr_sent w1 + 1"
    by (rule download_loop_ok [where transport = transport and w = w1])
  then obtain w2 where "download_loop percent transport sink 2 w1 = (w2, Inr payload)
             \<and> xhr_sent w2 = xhr_sent w1 + 1" ..
  with 1 show ?thesis by simp
qed

lemma downloadAgent_third_ok:
  assumes "xhr_result (transport (xhr_sent w)) = Inl e0"
    and "xhr_result (transport (xhr_sent w + 1)) = Inl e1"
    and "xhr_result (transport (xhr_sent w + 2)) = Inr payload"
  shows "snd (downloadAgent percent transport sink w) = Inr payload
       \<and> xhr_sent (fst (downloadAgent percent transport sink w)) = xhr_sent w + 3"
proof -
  obtain w2 where 2: "downloadAgent percent transport sink w
        = download_loop percent transport sink 3 w2 \<and> xhr_sent w2 = xhr_sent w + 2"
    using downloadAgent_retry_twice
      [where transport = transport and w = w, OF assms(1) assms(2)] ..
  with assms(3) have "xhr_result (transport (xhr_sent w2)) = Inr payload" by simp
  then have "\<exists>w3. download_loop percent transport sink 3 w2 = (w3, Inr payload)
             \<and> xhr_sent w3 = xhr_sent w2 + 1"
    by (rule download_loop_ok [where transport = transport and w = w2])
  then obtain w3 where "download_loop percent transport sink 3 w2 = (w3, Inr payload)
             \<and> xhr_sent w3 = xhr_sent w2 + 1" ..
  with 2 show ?thesis by simp
qed

lemma downloadAgent_third_fails:
  assumes "xhr_result (transport (xhr_sent w)) = Inl e0"
    and "xhr_result (transport (xhr_sent w + 1)) = Inl e1"
    and "xhr_result (transport (xhr_sent w + 2)) = Inl e2"
  shows "snd (downloadAgent percent transport sink w)
           = Inl (JsError fetch_failed_message)
       \<and> xhr_sent (fst (downloadAgent percent transport sink w)) = xhr_sent w + 3"
proof -
  obtain w2 where 2: "downloadAgent percent transport sink w
        = download_loop percent transport sink 3 w2 \<and> xhr_sent w2 = xhr_sent w + 2"
    using downloadAgent_retry_twice
      [where transport = transport and w = w, OF assms(1) assms(2)] ..
  with assms(3) have "xhr_result (transport (xhr_sent w2)) = Inl e2" by simp
  then have "\<exists>w3. download_loop percent transport sink 3 w2
               = (w3, Inl (JsError fetch_failed_message))
             \<and> xhr_sent w3 = xhr_sent w2 + 1"
    by (rule download_loop_give_up [where transport = transport and w = w2])
       (simp add: MAX_ATTEMPTS_def)
  then obtain w3 where "download_loop percent transport sink 3 w2
               = (w3, Inl (JsError fetch_failed_message))
             \<and> xhr_sent w3 = xhr_sent w2 + 1" ..
  with 2 show ?thesis by simp
qed

text \<open>
  C7. \<^verbatim>\<open>downloadAgent\<close> sends at most 3 transfers. When the first two transfers fail (an
  error event, or a status outside 200 to 299) and the third succeeds, it returns the
  payload of the third, having sent exactly 3. When the first three transfers fail, it
  throws the error that asks about the internet connection, having sent exactly 3.
\<close>

theorem downloadAgent_three_attempts:
  "xhr_sent (fst (downloadAgent percent transport sink w)) \<le> xhr_sent w + 3
   \<and> (xhr_result (transport (xhr_sent w)) = Inl e0
        \<and> xhr_result (transport (xhr_sent w + 1)) = Inl e1
        \<and> xhr_result (transport (xhr_sent w + 2)) = Inr payload
      \<longrightarrow> snd (downloadAgent percent transport sink w) = Inr payload
        \<and> xhr_sent (fst (downloadAgent percent transport sink w)) = xhr_sent w + 3)
   \<and> (isl (xhr_result (transport (xhr_sent w)))
        \<and> isl (xhr_result (transport (xhr_sent w + 1)))
        \<and> isl (xhr_result (transport (xhr_sent w + 2)))
      \<longrightarrow> snd (downloadAgent percent transport sink w) = Inl (JsError fetch_failed_message)
        \<and> xhr_sent (fst (downloadAgent percent transport sink w)) = xhr_sent w + 3)"
proof (intro conjI impI)
  show "xhr_sent (fst (downloadAgent percent transport sink w)) \<le> xhr_sent w + 3"
  proof (cases "xhr_result (transport (xhr_sent w))")
    case (Inr p0)
    then show ?thesis
      using downloadAgent_first_ok [where transport = transport and w = w] by simp
  next
    case a: (Inl a0)
    show ?thesis
    proof (cases "xhr_result (transport (xhr_sent w + 1))")
      case (Inr p1)
      then show ?thesis
        using downloadAgent_second_ok [where transport = transport and w = w, OF a] by simp
    next
      case b: (Inl a1)
      show ?thesis
      proof (cases "xhr_result (transport (xhr_sent w + 2))")
        case (Inr p2)
        then show ?thesis
          using downloadAgent_third_ok [where transport = transport and w = w, OF a b] by simp
      next
        case (Inl a2)
        then show ?thesis
          using downloadAgent_third_fails [where transport = transport and w = w, OF a b] by simp
      qed
    qed
  qed
next
  assume h: "xhr_result (transport (xhr_sent w)) = Inl e0
        \<and> xhr_result (transport (xhr_sent w + 1)) = Inl e1
        \<and> xhr_result (transport (xhr_sent w + 2)) = Inr payload"
  then have r: "snd (downloadAgent percent transport sink w) = Inr payload
       \<and> xhr_sent (fst (downloadAgent percent transport sink w)) = xhr_sent w + 3"
    using downloadAgent_third_ok [where transport = transport and w = w] by simp
  from r show "snd (downloadAgent percent transport sink w) = Inr payload" ..
  from r show "xhr_sent (fst (downloadAgent percent transport sink w)) = xhr_sent w + 3" ..
next
  assume h: "isl (xhr_result (transport (xhr_sent w)))
        \<and> isl (xhr_result (transport (xhr_sent w + 1)))
        \<and> isl (xhr_result (transport (xhr_sent w + 2)))"
  then obtain a0 a1 a2 where "xhr_result (transport (xhr_sent w)) = Inl a0"
    "xhr_result (transport (xhr_sent w + 1)) = Inl a1"
    "xhr_result (transport (xhr_sent w + 2)) = Inl a2"
    by (auto simp: isl_def)
  then have r: "snd (downloadAgent percent transport sink w) = Inl (JsError fetch_failed_message)
       \<and> xhr_sent (fst (downloadAgent percent transport sink w)) = xhr_sent w + 3"
    using downloadAgent_third_fails [where transport = transport and w = w] by simp
  from r show "snd (downloadAgent percent transport sink w) = Inl (JsError fetch_failed_message)" ..
  from r show "xhr_sent (fst (downloadAgent percent transport sink w)) = xhr_sent w + 3" ..
qed

theorem downloadAgent_three_attempts_witness:
  "snd (downloadAgent (\<lambda>l t. []) 
          (\<lambda>k. if k = 0 then transfer (onerror 0) else if k = 1 then transfer (onload 503 [])
                else transfer (onload 200 [1, 2, 3]))
          keep_events world0) = Inr [1, 2, 3]
   \<and> xhr_sent (fst (downloadAgent (\<lambda>l t. [])
          (\<lambda>k. if k = 0 then transfer (onerror 0) else if k = 1 then transfer (onload 503 [])
                else transfer (onload 200 [1, 2, 3]))
          keep_events world0)) = 3
   \<and> snd (downloadAgent (\<lambda>l t. []) (\<lambda>k. transfer (onload 404 [])) keep_events world0)
       = Inl (JsError fetch_failed_message)
   \<and> xhr_sent (fst (downloadAgent (\<lambda>l t. []) (\<lambda>k. transfer (onload 404 [])) keep_events world0)) = 3"
  using downloadAgent_three_attempts
    [where transport = "\<lambda>k. if k = 0 then transfer (onerror 0)
                          else if k = 1 then transfer (onload 503 [])
                          else transfer (onload 200 [1, 2, 3])"
       and w = world0 and ?e0.0 = 0 and ?e1.0 = 503 and payload = "[1, 2, 3]"
       and percent = "\<lambda>l t. []" and sink = keep_events]
    downloadAgent_three_attempts
    [where transport = "\<lambda>k. transfer (onload 404 [])"
       and w = world0 and percent = "\<lambda>l t. []" and sink = keep_events]
  by (simp add: xhr_result_def transfer_def world0_def)

subsection \<open>The upload and its timer\<close>

lemma upload_timeout_text:
  "upload_timeout_error =
     JsError (''Did not finish pushing agent after 30 seconds.'' @ [newline]
        @ ''In practice, pushing the agent takes less than a second, so this is a bug. Please report this issue including information about which web browser you are using.'')"
  by (simp add: upload_timeout_error_def AGENT_UPLOAD_TIMEOUT_def show_nat.simps [of 30]
      show_nat.simps [of 3])

lemma saveAgent_after_download:
  assumes "downloadAgent percent transport sink w = (w1, Inr agent)"
  shows "snd (saveAgent percent transport up sink w) = race_upload up"
  using assms by (simp add: saveAgent_def Let_def)

text \<open>
  C8. Once the agent is downloaded and the write started: when the write never settles, or
  settles (either way) more than 30000 ms after the race started, \<^verbatim>\<open>saveAgent\<close> throws
  the error whose message starts with \<^verbatim>\<open>Did not finish pushing agent after 30 seconds\<close>
  and says that this is a bug; when the write resolves before 30000 ms, \<^verbatim>\<open>saveAgent\<close>
  returns normally.
\<close>

theorem saveAgent_upload_timeout:
  assumes "downloadAgent percent transport sink w = (w1, Inr agent)"
  shows "(write_settles up = never_settles
          \<or> write_settles up = resolves_at t \<and> 30000 < t
          \<or> write_settles up = rejects_at t e \<and> 30000 < t
        \<longrightarrow> snd (saveAgent percent transport up sink w) =
              Inl (JsError (''Did not finish pushing agent after 30 seconds.'' @ [newline]
                @ ''In practice, pushing the agent takes less than a second, so this is a bug. Please report this issue including information about which web browser you are using.'')))
       \<and> (write_settles up = resolves_at t \<and> t < 30000
        \<longrightarrow> snd (saveAgent percent transport up sink w) = Inr ())"
proof -
  have r: "snd (saveAgent percent transport up sink w) = race_upload up"
    using assms by (rule saveAgent_after_download)
  show ?thesis
    unfolding r upload_timeout_text [symmetric]
    by (auto simp: race_upload_def timer_first_def AGENT_UPLOAD_TIMEOUT_def)
qed

theorem saveAgent_upload_timeout_witness:
  "snd (saveAgent (\<lambda>l t. []) (\<lambda>k. transfer (onload 200 [1, 2, 3]))
          \<lparr>write_settles = resolves_at 31000, timer_first_on_tie = False\<rparr> keep_events world0)
     = Inl (JsError (''Did not finish pushing agent after 30 seconds.'' @ [newline]
                @ ''In practice, pushing the agent takes less than a second, so this is a bug. Please report this issue including information about which web browser you are using.''))
   \<and> snd (saveAgent (\<lambda>l t. []) (\<lambda>k. transfer (onload 200 [1, 2, 3]))
          \<lparr>write_settles = resolves_at 800, timer_first_on_tie = False\<rparr> keep_events world0)
     = Inr ()"
proof -
  have d: "snd (downloadAgent (\<lambda>l t. []) (\<lambda>k. transfer (onload 200 [1, 2, 3])) keep_events world0)
      = Inr [1, 2, 3]"
    using downloadAgent_first_ok [where transport = "\<lambda>k. transfer (onload 200 [1, 2, 3])"
        and w = world0 and payload = "[1, 2, 3]"]
    by (simp add: xhr_result_def transfer_def)
  have p: "downloadAgent (\<lambda>l t. []) (\<lambda>k. transfer (onload 200 [1, 2, 3])) keep_events world0
      = (fst (downloadAgent (\<lambda>l t. []) (\<lambda>k. transfer (onload 200 [1, 2, 3])) keep_events world0),
         Inr [1, 2, 3])"
    using d by (simp add: prod_eq_iff)
  show ?thesis
    using saveAgent_upload_timeout [OF p, where t = 31000
        and up = "\<lparr>write_settles = resolves_at 31000, timer_first_on_tie = False\<rparr>"]
      saveAgent_upload_timeout [OF p, where t = 800
        and up = "\<lparr>write_settles = resolves_at 800, timer_first_on_tie = False\<rparr>"]
    by simp
qed

subsection \<open>Provisioning\<close>

lemma upper_char_idem: "upper_char (upper_char c) = upper_char c"
  by (simp add: upper_char_def)

lemma is_space_upper_char: "is_space (upper_char c) = is_space c"
  by (simp add: upper_char_def is_space_def)

lemma toUpperCase_idem: "toUpperCase (toUpperCase s) = toUpperCase s"
  by (simp add: toUpperCase_def upper_char_idem)

lemma dropWhile_space_upper:
  "dropWhile is_space (map upper_char s) = map upper_char (dropWhile is_space s)"
  by (induction s) (simp_all add: is_space_upper_char)

lemma trim_toUpperCase: "trim (toUpperCase s) = toUpperCase (trim s)"
  by (simp add: trim_def toUpperCase_def dropWhile_space_upper rev_map)

lemma drop_trailing_prefix: "\<exists>n. rev (dropWhile P (rev t)) = take n t"
proof -
  have "rev (dropWhile P (rev t)) = rev (drop (length (takeWhile P (rev t))) (rev t))"
    by (simp add: dropWhile_eq_drop)
  also have "\<dots> = take (length t - length (takeWhile P (rev t))) t"
    by (simp add: rev_drop)
  finally show ?thesis by blast
qed

lemma dropWhile_fixed: "xs = [] \<or> \<not> P (hd xs) \<Longrightarrow> dropWhile P xs = xs"
  by (cases xs) auto

lemma dropWhile_head: "dropWhile P xs = [] \<or> \<not> P (hd (dropWhile P xs))"
  using hd_dropWhile [of P xs] by blast

lemma trim_idem: "trim (trim s) = trim s"
proof -
  define t where "t = dropWhile is_space s"
  define u where "u = rev (dropWhile is_space (rev t))"
  have t: "t = [] \<or> \<not> is_space (hd t)"
    unfolding t_def by (rule dropWhile_head)
  obtain n where n: "u = take n t"
    unfolding u_def using drop_trailing_prefix by blast
  have "u = [] \<or> \<not> is_space (hd u)"
  proof (cases "u = []")
    case True
    then show ?thesis by simp
  next
    case False
    with n have "n \<noteq> 0" "t \<noteq> []" by auto
    with n have "hd u = hd t" by (cases t; cases n) auto
    with t \<open>t \<noteq> []\<close> show ?thesis by simp
  qed
  then have "dropWhile is_space u = u" by (rule dropWhile_fixed)
  moreover have "dropWhile is_space (rev u) = dropWhile is_space (rev t)"
    by (simp add: u_def)
  ultimately have "rev (dropWhile is_space (rev (dropWhile is_space u))) = u"
    by (simp add: u_def)
  then show ?thesis by (simp add: trim_def t_def u_def)
qed

lemma normalise_twice: "toUpperCase (trim (toUpperCase (trim s))) = toUpperCase (trim s)"
  by (simp add: trim_toUpperCase trim_idem toUpperCase_idem)

lemma adb_calls_logInfo: "adb_calls (logInfo sink msg w) = adb_calls w"
  by (cases sink) (simp_all add: logInfo_def Let_def)

text \<open>The comparison of line 42 can only succeed for an expected hash without lower-case
  letters: only the hash of the device is put in upper case.\<close>

lemma expected_hash_upper:
  "AGENT_SHA1 = toUpperCase (trim (toUpperCase (trim out))) \<Longrightarrow> toUpperCase AGENT_SHA1 = AGENT_SHA1"
  by (simp add: toUpperCase_idem)

text \<open>The transfers, the upload and the body of \<^verbatim>\<open>overwriteAgent\<close> only add to the
  calls made on the device.\<close>

lemma adb_calls_onprogress: "adb_calls (onprogress percent sink t evs w) = adb_calls w"
  by (induction percent sink t evs w rule: onprogress.induct) (simp_all add: adb_calls_logInfo)

lemma adb_calls_xhr_attempt:
  "xhr_attempt percent sink xhr w = (w1, r) \<Longrightarrow> adb_calls w1 = adb_calls w"
  by (auto simp: xhr_attempt_def Let_def adb_calls_onprogress)

lemma adb_calls_download_loop:
  "adb_calls (fst (download_loop percent transport sink attempt w)) = adb_calls w"
proof (induction percent transport sink attempt w rule: download_loop.induct)
  case (1 percent transport sink attempt w)
  obtain w1 r where a: "xhr_attempt percent sink (transport (xhr_sent w)) w = (w1, r)"
    by (cases "xhr_attempt percent sink (transport (xhr_sent w)) w")
  have c: "adb_calls w1 = adb_calls w" using adb_calls_xhr_attempt [OF a] .
  show ?case
  proof (cases r)
    case (Inr payload)
    with a c show ?thesis
      by (subst download_loop.simps) (simp add: adb_calls_logInfo)
  next
    case (Inl e)
    show ?thesis
    proof (cases "attempt + 1 \<le> MAX_ATTEMPTS")
      case False
      with a c Inl show ?thesis
        by (subst download_loop.simps) (simp add: adb_calls_logInfo Let_def)
    next
      case True
      define w3 where "w3 = logInfo sink
          (''Failed to download agent, trying again... (attempt ''
             @ show_nat (attempt + 1) @ ''/'' @ show_nat MAX_ATTEMPTS @ '')'')
          (logInfo sink (''Failed to fetch agent, status '' @ show_nat e) w1)"
      have i: "adb_calls (fst (download_loop percent transport sink (attempt + 1) w3))
          = adb_calls w3"
        using "1.IH" [OF refl a [symmetric] _ refl refl refl] Inl True
        by (simp add: w3_def)
      have "download_loop percent transport sink attempt w
          = download_loop percent transport sink (attempt + 1) w3"
        using a Inl True by (subst download_loop.simps) (simp add: Let_def w3_def)
      with i c show ?thesis
        by (simp add: w3_def adb_calls_logInfo)
    qed
  qed
qed

lemma saveAgent_keeps:
  assumes "saveAgent percent transport up sink w = (w4, r)"
  shows "set (adb_calls w) \<subseteq> set (adb_calls w4)"
proof -
  obtain w1 d where d: "downloadAgent percent transport sink w = (w1, d)"
    by (cases "downloadAgent percent transport sink w")
  then have "adb_calls w1 = adb_calls w"
    using adb_calls_download_loop [of percent transport sink 1 w] by (simp add: downloadAgent_def)
  with d assms show ?thesis
    by (cases d) (auto simp: saveAgent_def Let_def adb_calls_logInfo)
qed

text \<open>Once entered, \<^verbatim>\<open>overwriteAgent\<close> issues the \<^verbatim>\<open>rm\<close> command.\<close>

lemma overwrite_body_removes:
  assumes "overwrite_body dev percent transport up sink w = (w9, r)"
  shows "spawnAndWait rm_command \<in> set (adb_calls w9)"
  using assms
  by (auto simp: overwrite_body_def Let_def adb_calls_logInfo
      split: sum.splits prod.splits dest!: saveAgent_keeps)

lemma overwriteAgent_removes:
  "spawnAndWait rm_command
     \<in> set (adb_calls (fst (overwriteAgent dev percent transport up sink w)))"
  by (auto simp: overwriteAgent_def Let_def split: prod.splits dest: overwrite_body_removes)

text \<open>The run of \<^verbatim>\<open>downloadAgent\<close> whose first transfer succeeds.\<close>

lemma downloadAgent_first_run:
  "xhr_result (transport (xhr_sent w)) = Inr payload \<Longrightarrow>
   downloadAgent percent transport sink w =
     (logInfo sink ''Download complete, getting byte array from response''
        (fst (xhr_attempt percent sink (transport (xhr_sent w)) w)),
      Inr payload)"
  unfolding downloadAgent_def
  by (subst download_loop.simps) (simp add: xhr_attempt_def Let_def)

text \<open>
  C6, as the code has it. When the hash command answers ASCII text \<open>out\<close> and the hash
  in it (the output trimmed), put in upper case, is the expected hash exactly,
  \<^verbatim>\<open>prepareAgent\<close> returns normally and the only call it makes on the device is the hash
  command: no \<^verbatim>\<open>rm\<close>, no transfer, no write, no \<^verbatim>\<open>chmod\<close>. When it is not the
  expected hash, \<^verbatim>\<open>prepareAgent\<close> issues the \<^verbatim>\<open>rm\<close> command. The case of letters is
  thus ignored in the hash of the device only.
\<close>

theorem prepareAgent_up_to_date_no_action:
  assumes "dev sha1_command = Inr out" and "is_ascii out"
  shows "(toUpperCase (trim out) = AGENT_SHA1 \<longrightarrow>
            snd (prepareAgent AGENT_SHA1 dev percent transport up sink w) = Inr ()
          \<and> adb_calls (fst (prepareAgent AGENT_SHA1 dev percent transport up sink w))
              = adb_calls w @ [spawnAndWait sha1_command]
          \<and> xhr_sent (fst (prepareAgent AGENT_SHA1 dev percent transport up sink w)) = xhr_sent w)
       \<and> (toUpperCase (trim out) \<noteq> AGENT_SHA1 \<longrightarrow>
            spawnAndWait rm_command
              \<in> set (adb_calls (fst (prepareAgent AGENT_SHA1 dev percent transport up sink w))))"
proof (intro conjI impI)
  assume e: "toUpperCase (trim out) = AGENT_SHA1"
  have t: "AGENT_SHA1 = toUpperCase (trim (toUpperCase (trim out)))"
    unfolding e [symmetric] by (simp add: normalise_twice)
  show "snd (prepareAgent AGENT_SHA1 dev percent transport up sink w) = Inr ()"
    using assms(1) t by (simp add: prepareAgent_def Let_def)
  show "adb_calls (fst (prepareAgent AGENT_SHA1 dev percent transport up sink w))
      = adb_calls w @ [spawnAndWait sha1_command]"
    using assms(1) t by (simp add: prepareAgent_def Let_def adb_calls_logInfo)
  show "xhr_sent (fst (prepareAgent AGENT_SHA1 dev percent transport up sink w)) = xhr_sent w"
    using assms(1) t by (simp add: prepareAgent_def Let_def xhr_sent_logInfo)
next
  assume "toUpperCase (trim out) \<noteq> AGENT_SHA1"
  then have "AGENT_SHA1 \<noteq> toUpperCase (trim (toUpperCase (trim out)))"
    by (auto simp: normalise_twice)
  then show "spawnAndWait rm_command
      \<in> set (adb_calls (fst (prepareAgent AGENT_SHA1 dev percent transport up sink w)))"
    using assms(1) by (simp add: prepareAgent_def Let_def overwriteAgent_removes)
qed

theorem prepareAgent_up_to_date_no_action_witness:
  "is_ascii (''da39a3ee5e6b'' @ [newline])
   \<and> toUpperCase (trim (''da39a3ee5e6b'' @ [newline])) = ''DA39A3EE5E6B''
   \<and> snd (prepareAgent ''DA39A3EE5E6B'' (\<lambda>cmd. Inr (''da39a3ee5e6b'' @ [newline]))
            (\<lambda>l t. []) (\<lambda>k. transfer (onerror 0))
            \<lparr>write_settles = never_settles, timer_first_on_tie = False\<rparr> keep_events world0)
       = Inr ()
   \<and> adb_calls (fst (prepareAgent ''DA39A3EE5E6B'' (\<lambda>cmd. Inr (''da39a3ee5e6b'' @ [newline]))
            (\<lambda>l t. []) (\<lambda>k. transfer (onerror 0))
            \<lparr>write_settles = never_settles, timer_first_on_tie = False\<rparr> keep_events world0))
       = [spawnAndWait sha1_command]
   \<and> xhr_sent (fst (prepareAgent ''DA39A3EE5E6B'' (\<lambda>cmd. Inr (''da39a3ee5e6b'' @ [newline]))
            (\<lambda>l t. []) (\<lambda>k. transfer (onerror 0))
            \<lparr>write_settles = never_settles, timer_first_on_tie = False\<rparr> keep_events world0))
       = 0
   \<and> toUpperCase (trim (''0badc0de'' @ [newline])) \<noteq> ''DA39A3EE5E6B''
   \<and> spawnAndWait rm_command
       \<in> set (adb_calls (fst (prepareAgent ''DA39A3EE5E6B'' (\<lambda>cmd. Inr (''0badc0de'' @ [newline]))
            (\<lambda>l t. []) (\<lambda>k. transfer (onerror 0))
            \<lparr>write_settles = never_settles, timer_first_on_tie = False\<rparr> keep_events world0)))"
  using prepareAgent_up_to_date_no_action
    [where dev = "\<lambda>cmd. Inr (''da39a3ee5e6b'' @ [newline])" and out = "''da39a3ee5e6b'' @ [newline]"
       and ?AGENT_SHA1.0 = "''DA39A3EE5E6B''" and percent = "\<lambda>l t. []"
       and transport = "\<lambda>k. transfer (onerror 0)"
       and up = "\<lparr>write_settles = never_settles, timer_first_on_tie = False\<rparr>"
       and sink = keep_events and w = world0]
    prepareAgent_up_to_date_no_action
    [where dev = "\<lambda>cmd. Inr (''0badc0de'' @ [newline])" and out = "''0badc0de'' @ [newline]"
       and ?AGENT_SHA1.0 = "''DA39A3EE5E6B''" and percent = "\<lambda>l t. []"
       and transport = "\<lambda>k. transfer (onerror 0)"
       and up = "\<lparr>write_settles = never_settles, timer_first_on_tie = False\<rparr>"
       and sink = keep_events and w = world0]
  by (simp add: is_ascii_def trim_def is_space_def toUpperCase_def upper_char_def world0_def)

text \<open>
  C6 as stated does not hold: with an expected hash in lower case and the same hash on the
  device, equal even without regard to case, line 42 compares \<^verbatim>\<open>da39a3ee5e6b\<close> with
  \<^verbatim>\<open>DA39A3EE5E6B\<close>, and \<^verbatim>\<open>prepareAgent\<close> removes, fetches, writes and marks executable.
\<close>

theorem prepareAgent_lower_case_expected_counterexample:
  "toUpperCase (trim (''da39a3ee5e6b'' @ [newline])) = toUpperCase ''da39a3ee5e6b''
   \<and> adb_calls (fst (prepareAgent ''da39a3ee5e6b'' (\<lambda>cmd. Inr (''da39a3ee5e6b'' @ [newline]))
            (\<lambda>l t. []) (\<lambda>k. transfer (onload 200 [1, 2, 3]))
            \<lparr>write_settles = resolves_at 800, timer_first_on_tie = False\<rparr> keep_events world0))
       = [spawnAndWait sha1_command, sync, spawnAndWait rm_command,
          sync_write AgentPath [1, 2, 3], spawnAndWait chmod_command, sync_dispose]
   \<and> xhr_sent (fst (prepareAgent ''da39a3ee5e6b'' (\<lambda>cmd. Inr (''da39a3ee5e6b'' @ [newline]))
            (\<lambda>l t. []) (\<lambda>k. transfer (onload 200 [1, 2, 3]))
            \<lparr>write_settles = resolves_at 800, timer_first_on_tie = False\<rparr> keep_events world0))
       = 1"
  by (simp add: prepareAgent_def overwriteAgent_def overwrite_body_def saveAgent_def
        downloadAgent_first_run Let_def trim_def is_space_def toUpperCase_def upper_char_def
        world0_def keep_events_def logInfo_def xhr_attempt_def xhr_result_def transfer_def
        race_upload_def timer_first_def AGENT_UPLOAD_TIMEOUT_def)

subsection \<open>patchApp\<close>

text \<open>
  C10. Whenever \<^verbatim>\<open>patchApp\<close> returns a status, \<^verbatim>\<open>sendRequest\<close> had returned some
  \<open>response\<close>, and the status is the record built at lines 373 to 387: the loader is
  \<^verbatim>\<open>Scotland2\<close>, the version is \<^verbatim>\<open>downgradeToVersion\<close> when that is not \<^verbatim>\<open>null\<close>
  and the version of \<^verbatim>\<open>beforePatch\<close> otherwise, all core mods count as installed, there
  are no downgrade versions, the mod loader is present, and of the response only
  \<^verbatim>\<open>installed_mods\<close> is used.
\<close>

theorem patchApp_status_built_locally:
  assumes "patchApp CORE_MOD_OVERRIDE_URL stringify parse run beforePatch downgradeToVersion
             manifestMod remodding allow_no_core_mods eventSink w = (w1, Inr status)"
  shows "\<exists>response cm v.
           snd (sendRequest stringify parse run
                  (Patch downgradeToVersion manifestMod allow_no_core_mods CORE_MOD_OVERRIDE_URL
                     remodding) eventSink
                  (w\<lparr>console := console w
                        @ [console_log (''Patching with manifest '' @ manifestMod)]\<rparr>))
             = Inr response
         \<and> core_mods beforePatch = Some cm
         \<and> (case downgradeToVersion of
               Some d \<Rightarrow> v = d
             | None \<Rightarrow> (case app_info beforePatch of None \<Rightarrow> False | Some ai \<Rightarrow> v = version ai))
         \<and> status =
             \<lparr>app_info = Some \<lparr>loader_installed = ''Scotland2'', version = v,
                                manifest_xml = manifestMod\<rparr>,
              core_mods = Some \<lparr>all_core_mods_installed = True,
                                 supported_versions = supported_versions cm,
                                 downgrade_versions = []\<rparr>,
              modloader_present = True,
              installed_mods = patched_installed_mods response\<rparr>"
  using assms
  by (auto simp: patchApp_def Let_def version_after_def
      split: prod.splits sum.splits option.splits if_splits)

theorem patchApp_status_built_locally_witness:
  "snd (patchApp None (\<lambda>r. ''patch'') parse_patched
          \<lparr>reads = [Some (''info'' @ [newline] @ ''patched'' @ [newline])], exit_code = 0, stderr = []\<rparr>
          before0 (Some ''1.37.0'') ''<new/>'' False False keep_events world0)
     = Inr \<lparr>app_info = Some \<lparr>loader_installed = ''Scotland2'', version = ''1.37.0'',
                                manifest_xml = ''<new/>''\<rparr>,
            core_mods = Some \<lparr>all_core_mods_installed = True,
                               supported_versions = [''1.37.0''],
                               downgrade_versions = []\<rparr>,
            modloader_present = True,
            installed_mods = [4, 2]\<rparr>
   \<and> toasts (fst (patchApp None (\<lambda>r. ''patch'') parse_patched
          \<lparr>reads = [Some (''info'' @ [newline] @ ''patched'' @ [newline])], exit_code = 0, stderr = []\<rparr>
          before0 (Some ''1.37.0'') ''<new/>'' False False keep_events world0)) = [dlc_warning]"
  using patchApp_status_built_locally
    [where CORE_MOD_OVERRIDE_URL = None and stringify = "\<lambda>r. ''patch''" and parse = parse_patched
       and run = "\<lparr>reads = [Some (''info'' @ [newline] @ ''patched'' @ [newline])], exit_code = 0, stderr = []\<rparr>"
       and beforePatch = before0 and downgradeToVersion = "Some ''1.37.0''"
       and manifestMod = "''<new/>''" and remodding = False and allow_no_core_mods = False
       and eventSink = keep_events and w = world0
       and ?w1.0 = "fst (patchApp None (\<lambda>r. ''patch'') parse_patched
          \<lparr>reads = [Some (''info'' @ [newline] @ ''patched'' @ [newline])], exit_code = 0, stderr = []\<rparr>
          before0 (Some ''1.37.0'') ''<new/>'' False False keep_events world0)"
       and status = "\<lparr>app_info = Some \<lparr>loader_installed = ''Scotland2'', version = ''1.37.0'',
                                manifest_xml = ''<new/>''\<rparr>,
            core_mods = Some \<lparr>all_core_mods_installed = True,
                               supported_versions = [''1.37.0''],
                               downgrade_versions = []\<rparr>,
            modloader_present = True,
            installed_mods = [4, 2]\<rparr>"]
  by (simp add: patchApp_def sendRequest_def resolve_def version_after_def before0_def
      parse_patched_def js_split_def frame_chunk_def on_read_def handle_message_def keep_events_def
      logFromAgent_def open_session_def world0_def)

end
